theory Spec2Isabelle
  imports Main "HOL-Library.Monad_Syntax"
begin

section \<open>The in-game console of OpenRCT2 (InGameConsole.cpp)\<close>

text \<open>
  A shallow embedding of \<^verbatim>\<open>src/openrct2-ui/interface/InGameConsole.cpp\<close>. The member
  functions of the class become functions on a record of its fields. A function whose
  C++ original can run into undefined behaviour or throw (a division by zero, \<^verbatim>\<open>back()\<close>
  of an empty deque, a null session pointer, an index outside an array, a read of a
  buffer without terminator, \<^verbatim>\<open>std::out_of_range\<close>) returns an \<open>option\<close>, and \<open>None\<close>
  stands for that outcome.

  The 32-bit integers of the source are modelled by \<open>int\<close>: every quantity is bounded by
  the number of console lines or by screen coordinates, far from the limits of
  \<^verbatim>\<open>int32_t\<close>, and signed overflow has no defined result in C++ that a model could follow.
\<close>

subsection \<open>C and C++ library functions\<close>

abbreviation NUL :: char where
  "NUL \<equiv> CHR 0x00"

abbreviation newline :: char where
  "newline \<equiv> CHR 0x0A"

text \<open>Division of \<^verbatim>\<open>int32_t\<close>: truncation towards zero; undefined for a zero divisor.\<close>

definition cpp_div :: "int \<Rightarrow> int \<Rightarrow> int option" where
  "cpp_div a b = (if b = 0 then None else Some (sgn a * sgn b * (\<bar>a\<bar> div \<bar>b\<bar>)))"

text \<open>
  The remainder that goes with it, for a divisor that is a non-zero constant: it has the
  sign of the dividend.
\<close>

definition cpp_rem :: "int \<Rightarrow> int \<Rightarrow> int" where
  "cpp_rem a b = sgn a * (\<bar>a\<bar> mod \<bar>b\<bar>)"

text \<open>\<^verbatim>\<open>std::clamp(v, lo, hi)\<close>.\<close>

definition clamp :: "int \<Rightarrow> int \<Rightarrow> int \<Rightarrow> int" where
  "clamp v lo hi = (if v < lo then lo else if hi < v then hi else v)"

text \<open>
  A \<^verbatim>\<open>utf8\<close> buffer is the list of its bytes. Read as a C string it is the bytes before
  the first terminator; a buffer without terminator is read past its end.
\<close>

definition c_str :: "string \<Rightarrow> string option" where
  "c_str buf = (if NUL \<in> set buf then Some (takeWhile (\<lambda>c. c \<noteq> NUL) buf) else None)"

definition strlen :: "string \<Rightarrow> nat option" where
  "strlen buf = map_option length (c_str buf)"

text \<open>\<^verbatim>\<open>memcpy(dst, src, n)\<close>: the new content of \<open>dst\<close>; both buffers must hold \<open>n\<close> bytes.\<close>

definition memcpy :: "string \<Rightarrow> string \<Rightarrow> nat \<Rightarrow> string option" where
  "memcpy dst src n =
     (if n \<le> length src \<and> n \<le> length dst then Some (take n src @ drop n dst) else None)"

text \<open>
  \<^verbatim>\<open>std::string::find(ch, pos)\<close>: the first index from \<open>pos\<close> on that holds \<open>ch\<close>.
  \<^verbatim>\<open>std::string::npos\<close>, the largest \<^verbatim>\<open>size_t\<close>, is \<open>None\<close>: it is larger than the size
  of every string.
\<close>

definition string_find :: "string \<Rightarrow> char \<Rightarrow> nat \<Rightarrow> nat option" where
  "string_find s ch pos = List.find (\<lambda>i. s ! i = ch) [pos..<length s]"

text \<open>
  \<^verbatim>\<open>std::string::substr(pos, count)\<close>: throws \<^verbatim>\<open>std::out_of_range\<close> when \<open>pos\<close> is
  beyond the size, and stops at the end of the string. The count \<open>None\<close> is
  \<^verbatim>\<open>npos - pos\<close>, which reaches the end of every string.
\<close>

definition substr :: "string \<Rightarrow> nat \<Rightarrow> nat option \<Rightarrow> string option" where
  "substr s pos count =
     (if length s < pos then None
      else Some (case count of None \<Rightarrow> drop pos s | Some n \<Rightarrow> take n (drop pos s)))"

subsection \<open>The data of the console\<close>

datatype ConsoleInput =
  ConsoleInputNone | LineClear | LineExecute | HistoryPrevious | HistoryNext
  | ScrollPrevious | ScrollNext

text \<open>
  \<^verbatim>\<open>FormatToken\<close> is declared outside this file. \<open>ColourWindow2\<close> is the member the file
  names; the others stand for the colours that callers pass for errors and warnings.
\<close>

datatype FormatToken = ColourWindow2 | ColourRed | ColourYellow

text \<open>\<^verbatim>\<open>FontStyle\<close> is declared outside this file, which names two of its members.\<close>

datatype FontStyle = Small | Medium

record ScreenCoordsXY =
  coord_x :: int
  coord_y :: int

text \<open>The fields of the text input session that the console writes.\<close>

record TextInputSession =
  Size :: nat
  Length :: nat
  SelectionStart :: nat

text \<open>
  The fields of the class. \<open>consoleTextInputSession\<close> is a pointer: \<open>None\<close> is
  \<^verbatim>\<open>nullptr\<close>, and the buffer of a session is \<open>consoleCurrentLine\<close> itself.
  \<open>consoleHistory\<close> is the array of \<^verbatim>\<open>CONSOLE_HISTORY_SIZE\<close> buffers.
\<close>

record InGameConsole =
  isOpen :: bool
  consoleTopLeft :: ScreenCoordsXY
  consoleBottomRight :: ScreenCoordsXY
  lastMainViewport :: ScreenCoordsXY
  consoleLines :: "string list"
  consoleCurrentLine :: string
  consoleCaretTicks :: int
  consoleScrollPos :: int
  consoleTextInputSession :: "TextInputSession option"
  consoleHistory :: "string list"
  consoleHistoryIndex :: int
  consoleHistoryCount :: int
  selectionStart :: nat
  caretScreenPosX :: int

text \<open>
  What the file takes from outside: the constants of the headers, the setting
  \<^verbatim>\<open>gConfigInterface.ConsoleSmallFont\<close>, the font metrics, the UTF-8 length, the width of the screen, the session that the text input service starts
  on a buffer, the position of the main viewport (\<open>None\<close> when
  there is no main window or viewport) and the command interpreter, which may change the
  console in any way.
\<close>

record Host =
  CONSOLE_MAX_LINES :: nat
  CONSOLE_HISTORY_SIZE :: int
  CONSOLE_INPUT_SIZE :: nat
  TEXT_INPUT_SIZE :: nat
  ConsoleSmallFont :: bool
  FontGetLineHeight :: "FontStyle \<Rightarrow> int"
  UTF8Length :: "string \<Rightarrow> nat"
  GfxGetStringWidthNoFormatting :: "string \<Rightarrow> FontStyle \<Rightarrow> int"
  ContextGetWidth :: int
  ContextStartTextInput :: "string \<Rightarrow> TextInputSession"
  MainViewportPos :: "ScreenCoordsXY option"
  Execute :: "string \<Rightarrow> InGameConsole \<Rightarrow> InGameConsole option"

subsection \<open>Geometry and scrolling\<close>

definition InGameConsoleGetFontStyle :: "Host \<Rightarrow> FontStyle" where
  "InGameConsoleGetFontStyle h = (if ConsoleSmallFont h then Small else Medium)"

definition InGameConsoleGetLineHeight :: "Host \<Rightarrow> int" where
  "InGameConsoleGetLineHeight h = FontGetLineHeight h (InGameConsoleGetFontStyle h)"

definition GetNumVisibleLines :: "Host \<Rightarrow> InGameConsole \<Rightarrow> int option" where
  "GetNumVisibleLines h c =
     (let lineHeight = InGameConsoleGetLineHeight h;
          consoleHeight = coord_y (consoleBottomRight c) - coord_y (consoleTopLeft c)
      in if consoleHeight = 0 then Some 0
         else (let drawableHeight = consoleHeight - 2 * lineHeight - 4
               in cpp_div drawableHeight lineHeight))"

definition ScrollToEnd :: "Host \<Rightarrow> InGameConsole \<Rightarrow> InGameConsole option" where
  "ScrollToEnd h c =
     do {
       maxLines \<leftarrow> GetNumVisibleLines h c;
       if maxLines = 0 then Some (c\<lparr>consoleScrollPos := 0\<rparr>)
       else Some (c\<lparr>consoleScrollPos := max 0 (int (length (consoleLines c)) - maxLines)\<rparr>)
     }"

definition Scroll :: "Host \<Rightarrow> int \<Rightarrow> InGameConsole \<Rightarrow> InGameConsole option" where
  "Scroll h linesToScroll c =
     do {
       maxVisibleLines \<leftarrow> GetNumVisibleLines h c;
       let numLines = int (length (consoleLines c));
       if numLines > maxVisibleLines
       then (let maxScrollValue = numLines - maxVisibleLines
             in Some (c\<lparr>consoleScrollPos :=
                          clamp (consoleScrollPos c - linesToScroll) 0 maxScrollValue\<rparr>))
       else Some c
     }"

subsection \<open>The edit line and the caret\<close>

text \<open>
  \<^verbatim>\<open>ClearInput\<close> also restarts the text input of the host when the console is open; the
  call returns a session that the function drops, and the pointer of the console stays
  as it is.
\<close>

definition ClearInput :: "InGameConsole \<Rightarrow> InGameConsole" where
  "ClearInput c = c\<lparr>consoleCurrentLine := (consoleCurrentLine c)[0 := NUL]\<rparr>"

text \<open>
  \<^verbatim>\<open>tempString\<close> is an array of \<^verbatim>\<open>TEXT_INPUT_SIZE\<close> zero bytes that receives the first
  \<open>position\<close> bytes of the edit line and is measured as a C string.
\<close>

definition RefreshCaret :: "Host \<Rightarrow> nat \<Rightarrow> InGameConsole \<Rightarrow> InGameConsole option" where
  "RefreshCaret h position c =
     do {
       tempString \<leftarrow> memcpy (replicate (TEXT_INPUT_SIZE h) NUL) (consoleCurrentLine c) position;
       str \<leftarrow> c_str tempString;
       Some (c\<lparr>consoleCaretTicks := 0, selectionStart := position,
                caretScreenPosX :=
                  GfxGetStringWidthNoFormatting h str (InGameConsoleGetFontStyle h)\<rparr>)
     }"

subsection \<open>The history\<close>

text \<open>The loop of \<^verbatim>\<open>HistoryAdd\<close> that moves every entry one place towards index 0.\<close>

function HistoryAdd_shift :: "nat \<Rightarrow> int \<Rightarrow> int \<Rightarrow> string list \<Rightarrow> string list option" where
  "HistoryAdd_shift n i cnt hist =
     (if i < cnt - 1 then
        (if 0 \<le> i \<and> i + 1 < int (length hist) then
           (case memcpy (hist ! nat i) (hist ! nat (i + 1)) n of
              None \<Rightarrow> None
            | Some row \<Rightarrow> HistoryAdd_shift n (i + 1) cnt (hist[nat i := row]))
         else None)
      else Some hist)"
  by pat_completeness auto
termination
  by (relation "measure (\<lambda>(n, i, cnt, hist). nat (cnt - 1 - i))") auto

declare HistoryAdd_shift.simps [simp del]

definition HistoryAdd :: "Host \<Rightarrow> string \<Rightarrow> InGameConsole \<Rightarrow> InGameConsole option" where
  "HistoryAdd h src c =
     do {
       c1 \<leftarrow> (if consoleHistoryCount c \<ge> CONSOLE_HISTORY_SIZE h then
               do {
                 hist \<leftarrow> HistoryAdd_shift (CONSOLE_INPUT_SIZE h) 0 (consoleHistoryCount c)
                           (consoleHistory c);
                 Some (c\<lparr>consoleHistory := hist,
                          consoleHistoryCount := consoleHistoryCount c - 1\<rparr>)
               }
             else Some c);
       let cnt = consoleHistoryCount c1;
       if 0 \<le> cnt \<and> cnt < int (length (consoleHistory c1)) then
         do {
           row \<leftarrow> memcpy (consoleHistory c1 ! nat cnt) src (CONSOLE_INPUT_SIZE h);
           Some (c1\<lparr>consoleHistory := (consoleHistory c1)[nat cnt := row],
                     consoleHistoryCount := cnt + 1,
                     consoleHistoryIndex := cnt + 1\<rparr>)
         }
       else None
     }"

subsection \<open>Writing to the scrollback\<close>

text \<open>
  The loop of \<^verbatim>\<open>WriteLine\<close>. \<^verbatim>\<open>splitPos\<close> starts at 0, so the body runs at least once;
  after a pass that found no newline the loop ends.
\<close>

function WriteLine_loop :: "string \<Rightarrow> string \<Rightarrow> nat \<Rightarrow> string list \<Rightarrow> string list option" where
  "WriteLine_loop input colourCodepoint stringOffset ls =
     (let splitPos = string_find input newline stringOffset
      in case substr input stringOffset (map_option (\<lambda>p. p - stringOffset) splitPos) of
           None \<Rightarrow> None
         | Some line \<Rightarrow>
             (let ls' = ls @ [colourCodepoint @ line]
              in case splitPos of
                   None \<Rightarrow> Some ls'
                 | Some p \<Rightarrow> WriteLine_loop input colourCodepoint (p + 1) ls'))"
  by pat_completeness auto
termination
proof (relation "measure (\<lambda>(input, cc, off, ls). length input - off)")
  show "wf (measure (\<lambda>(input, cc, off, ls). length input - off))"
    by simp
next
  fix input :: string and colourCodepoint :: string and stringOffset :: nat
    and ls :: "string list" and splitPos line ls' p
  assume "splitPos = string_find input newline stringOffset" and "splitPos = Some p"
  then have "List.find (\<lambda>i. input ! i = newline) [stringOffset..<length input] = Some p"
    by (simp add: string_find_def)
  then have "stringOffset \<le> p \<and> p < length input"
    by (auto simp: find_Some_iff)
  then show "((input, colourCodepoint, p + 1, ls'), input, colourCodepoint, stringOffset, ls)
      \<in> measure (\<lambda>(input, cc, off, ls). length input - off)"
    by auto
qed

declare WriteLine_loop.simps [simp del]

text \<open>The first statements of \<^verbatim>\<open>WriteLine\<close>: the text that goes in front of every line.\<close>

definition colourCodepoint :: "FormatToken \<Rightarrow> string" where
  "colourCodepoint colourFormat =
     (if colourFormat \<noteq> ColourWindow2 then ''{WINDOW_COLOUR_2}'' else '''')"

definition WriteLine :: "Host \<Rightarrow> string \<Rightarrow> FormatToken \<Rightarrow> InGameConsole \<Rightarrow> InGameConsole option"
  where
  "WriteLine h input colourFormat c =
     do {
       ls \<leftarrow> WriteLine_loop input (colourCodepoint colourFormat) 0 (consoleLines c);
       if length ls > CONSOLE_MAX_LINES h
       then (let linesToErase = length ls - CONSOLE_MAX_LINES h
             in Some (c\<lparr>consoleLines := drop linesToErase ls\<rparr>))
       else Some (c\<lparr>consoleLines := ls\<rparr>)
     }"

text \<open>
  Modelled from the spec: \<^verbatim>\<open>InteractiveConsole::WriteLine(const std::string&)\<close>, the
  one-argument function of the base class, is not part of this file. The spec has the
  prompt and the greeting written as plain lines, so it writes with the default colour.
\<close>

definition InteractiveConsole_WriteLine :: "Host \<Rightarrow> string \<Rightarrow> InGameConsole \<Rightarrow> InGameConsole option"
  where
  "InteractiveConsole_WriteLine h s c = WriteLine h s ColourWindow2 c"

definition WritePrompt :: "Host \<Rightarrow> InGameConsole \<Rightarrow> InGameConsole option" where
  "WritePrompt h c = InteractiveConsole_WriteLine h ''> '' c"

subsection \<open>Input events\<close>

text \<open>
  \<^verbatim>\<open>RefreshCaret\<close> is called without argument; the declaration with the default value is
  outside this file, and the spec has the caret reset to offset 0.
\<close>

fun Input :: "Host \<Rightarrow> ConsoleInput \<Rightarrow> InGameConsole \<Rightarrow> InGameConsole option" where
  "Input h LineClear c = RefreshCaret h 0 (ClearInput c)"
| "Input h LineExecute c =
     do {
       c' \<leftarrow> (if consoleCurrentLine c ! 0 \<noteq> NUL then
               do {
                 c1 \<leftarrow> HistoryAdd h (consoleCurrentLine c) c;
                 line \<leftarrow> c_str (consoleCurrentLine c1);
                 c2 \<leftarrow> (if consoleLines c1 = [] then None
                        else Some (c1\<lparr>consoleLines :=
                               butlast (consoleLines c1) @ [last (consoleLines c1) @ line]\<rparr>));
                 line' \<leftarrow> c_str (consoleCurrentLine c2);
                 c3 \<leftarrow> Execute h line' c2;
                 c4 \<leftarrow> WritePrompt h c3;
                 RefreshCaret h 0 (ClearInput c4)
               }
             else Some c);
       ScrollToEnd h c'
     }"
| "Input h HistoryPrevious c =
     do {
       c1 \<leftarrow> (if consoleHistoryIndex c > 0 then
               (let i = consoleHistoryIndex c - 1
                in if i < int (length (consoleHistory c)) then
                     do {
                       buf \<leftarrow> memcpy (consoleCurrentLine c) (consoleHistory c ! nat i)
                                (CONSOLE_INPUT_SIZE h);
                       Some (c\<lparr>consoleHistoryIndex := i, consoleCurrentLine := buf\<rparr>)
                     }
                   else None)
             else Some c);
       session \<leftarrow> consoleTextInputSession c1;
       size \<leftarrow> strlen (consoleCurrentLine c1);
       str \<leftarrow> c_str (consoleCurrentLine c1);
       sel \<leftarrow> strlen (consoleCurrentLine c1);
       Some (c1\<lparr>consoleTextInputSession :=
                   Some (session\<lparr>Size := size, Length := UTF8Length h str,
                                  SelectionStart := sel\<rparr>)\<rparr>)
     }"
| "Input h HistoryNext c =
     (if consoleHistoryIndex c < consoleHistoryCount c - 1 then
        (let i = consoleHistoryIndex c + 1
         in if 0 \<le> i \<and> i < int (length (consoleHistory c)) then
              do {
                buf \<leftarrow> memcpy (consoleCurrentLine c) (consoleHistory c ! nat i)
                         (CONSOLE_INPUT_SIZE h);
                let c1 = c\<lparr>consoleHistoryIndex := i, consoleCurrentLine := buf\<rparr>;
                session \<leftarrow> consoleTextInputSession c1;
                size \<leftarrow> strlen (consoleCurrentLine c1);
                str \<leftarrow> c_str (consoleCurrentLine c1);
                sel \<leftarrow> strlen (consoleCurrentLine c1);
                Some (c1\<lparr>consoleTextInputSession :=
                            Some (session\<lparr>Size := size, Length := UTF8Length h str,
                                           SelectionStart := sel\<rparr>)\<rparr>)
              }
            else None)
      else Some (ClearInput (c\<lparr>consoleHistoryIndex := consoleHistoryCount c\<rparr>)))"
| "Input h ScrollPrevious c =
     do {
       n \<leftarrow> GetNumVisibleLines h c;
       let scrollAmt = n - 1;
       Scroll h scrollAmt c
     }"
| "Input h ScrollNext c =
     do {
       n \<leftarrow> GetNumVisibleLines h c;
       let scrollAmt = n - 1;
       Scroll h (- scrollAmt) c
     }"
| "Input h ConsoleInputNone c = Some c"

subsection \<open>Opening, closing, clearing and the tick\<close>

definition Clear :: "Host \<Rightarrow> InGameConsole \<Rightarrow> InGameConsole option" where
  "Clear h c = ScrollToEnd h (c\<lparr>consoleLines := []\<rparr>)"

definition ClearLine :: "Host \<Rightarrow> InGameConsole \<Rightarrow> InGameConsole option" where
  "ClearLine h c = RefreshCaret h 0 (c\<lparr>consoleCurrentLine := (consoleCurrentLine c)[0 := NUL]\<rparr>)"

definition Open :: "Host \<Rightarrow> InGameConsole \<Rightarrow> InGameConsole option" where
  "Open h c =
     do {
       c1 \<leftarrow> ScrollToEnd h (c\<lparr>isOpen := True\<rparr>);
       c2 \<leftarrow> RefreshCaret h 0 c1;
       Some (c2\<lparr>consoleTextInputSession :=
                   Some (ContextStartTextInput h (consoleCurrentLine c2))\<rparr>)
     }"

definition Close :: "InGameConsole \<Rightarrow> InGameConsole" where
  "Close c = c\<lparr>consoleTextInputSession := None, isOpen := False\<rparr>"

definition Hide :: "InGameConsole \<Rightarrow> InGameConsole" where
  "Hide c = Close c"

definition Toggle :: "Host \<Rightarrow> InGameConsole \<Rightarrow> InGameConsole option" where
  "Toggle h c = (if isOpen c then Some (Close c) else Open h c)"

text \<open>
  \<^verbatim>\<open>Update\<close> sets the region of the console, remembers the position of the main viewport
  while the console is open, and advances the caret; what it sends to the screen is not
  part of the state.
\<close>

definition Update :: "Host \<Rightarrow> InGameConsole \<Rightarrow> InGameConsole" where
  "Update h c =
     (let c1 = c\<lparr>consoleTopLeft := \<lparr>coord_x = 0, coord_y = 0\<rparr>,
                  consoleBottomRight := \<lparr>coord_x = ContextGetWidth h, coord_y = 322\<rparr>\<rparr>;
          c2 = (if isOpen c1 then
                  (case MainViewportPos h of
                     None \<Rightarrow> c1
                   | Some viewPos \<Rightarrow>
                       if lastMainViewport c1 \<noteq> viewPos
                       then c1\<lparr>lastMainViewport := viewPos\<rparr> else c1)
                else c1)
      in c2\<lparr>consoleCaretTicks := cpp_rem (consoleCaretTicks c2 + 1) 30\<rparr>)"

subsection \<open>Sequences of calls\<close>

text \<open>A sequence of calls stops at the first one that has no defined result.\<close>

fun run_all :: "('a \<Rightarrow> 's \<Rightarrow> 's option) \<Rightarrow> 'a list \<Rightarrow> 's \<Rightarrow> 's option" where
  "run_all f [] c = Some c"
| "run_all f (a # as) c = (case f a c of None \<Rightarrow> None | Some c' \<Rightarrow> run_all f as c')"

subsection \<open>Notions of the specification\<close>

definition consoleHeight :: "InGameConsole \<Rightarrow> int" where
  "consoleHeight c = coord_y (consoleBottomRight c) - coord_y (consoleTopLeft c)"

text \<open>
  The visible line count in the words of the specification: the floor of the quotient,
  clamped to be at least 0, and 0 for a console of height 0.
\<close>

definition spec_visibleLineCount :: "int \<Rightarrow> int \<Rightarrow> int" where
  "spec_visibleLineCount height lineHeight =
     (if height = 0 then 0 else max 0 ((height - 2 * lineHeight - 4) div lineHeight))"

text \<open>
  Splitting a text on newline characters, in the words of the specification: one segment
  for each newline and one for what follows the last.
\<close>

fun split_lines :: "string \<Rightarrow> string list" where
  "split_lines [] = [[]]"
| "split_lines (ch # cs) =
     (if ch = newline then [] # split_lines cs
      else (ch # hd (split_lines cs)) # tl (split_lines cs))"

text \<open>The lines that a call of \<^verbatim>\<open>WriteLine\<close> appends, before the oldest are dropped.\<close>

definition appended_lines :: "string \<Rightarrow> FormatToken \<Rightarrow> string list" where
  "appended_lines input colourFormat =
     map (\<lambda>segment. colourCodepoint colourFormat @ segment) (split_lines input)"

text \<open>
  Modelled from the spec: the tag of a colour as text. The function that prints a format
  token is not part of this file; the tag of the default colour is the one the file
  spells out.
\<close>

definition spec_colourTag :: "FormatToken \<Rightarrow> string" where
  "spec_colourTag t =
     (case t of ColourWindow2 \<Rightarrow> ''{WINDOW_COLOUR_2}'' | ColourRed \<Rightarrow> ''{RED}''
      | ColourYellow \<Rightarrow> ''{YELLOW}'')"

text \<open>
  The lines of a write in the words of the specification: each segment, with the tag of
  the colour in front when the colour is not the default.
\<close>

definition spec_written_lines :: "string \<Rightarrow> FormatToken \<Rightarrow> string list" where
  "spec_written_lines input colourFormat =
     map (\<lambda>segment. (if colourFormat \<noteq> ColourWindow2 then spec_colourTag colourFormat else '''')
            @ segment)
       (split_lines input)"

text \<open>
  What is left of a sequence that may hold at most \<open>maxLines\<close> entries: as many
  entries as exceed the cap are removed from the front.
\<close>

definition drop_oldest :: "nat \<Rightarrow> 'a list \<Rightarrow> 'a list" where
  "drop_oldest maxLines ls = drop (length ls - maxLines) ls"

text \<open>
  The entries of the history ring, oldest first: the first \<open>consoleHistoryCount\<close> rows
  of the array.
\<close>

definition history_entries :: "InGameConsole \<Rightarrow> string list" where
  "history_entries c = take (nat (consoleHistoryCount c)) (consoleHistory c)"

text \<open>
  What the declarations of the class fix for the history: the array has
  \<^verbatim>\<open>CONSOLE_HISTORY_SIZE\<close> rows of \<^verbatim>\<open>CONSOLE_INPUT_SIZE\<close> bytes, neither of them 0, and
  the count lies between 0 and the capacity.
\<close>

definition history_ok :: "Host \<Rightarrow> InGameConsole \<Rightarrow> bool" where
  "history_ok h c \<longleftrightarrow>
     0 < CONSOLE_HISTORY_SIZE h \<and> 0 < CONSOLE_INPUT_SIZE h
     \<and> int (length (consoleHistory c)) = CONSOLE_HISTORY_SIZE h
     \<and> list_all (\<lambda>row. length row = CONSOLE_INPUT_SIZE h) (consoleHistory c)
     \<and> 0 \<le> consoleHistoryCount c \<and> consoleHistoryCount c \<le> CONSOLE_HISTORY_SIZE h"

text \<open>
  The bound of the scroll offset in the specification,
  \<open>max(0, totalLines - visibleLineCount())\<close>, and the invariant that the offset lies
  between 0 and this bound. Without a defined line count there is no bound.
\<close>

definition max_scroll :: "Host \<Rightarrow> InGameConsole \<Rightarrow> int option" where
  "max_scroll h c =
     map_option (\<lambda>n. max 0 (int (length (consoleLines c)) - n)) (GetNumVisibleLines h c)"

definition scroll_in_range :: "Host \<Rightarrow> InGameConsole \<Rightarrow> bool" where
  "scroll_in_range h c =
     (case max_scroll h c of
        None \<Rightarrow> False
      | Some m \<Rightarrow> 0 \<le> consoleScrollPos c \<and> consoleScrollPos c \<le> m)"

text \<open>
  What recalling from the history needs besides \<open>history_ok\<close>: the edit line is a
  buffer of \<^verbatim>\<open>CONSOLE_INPUT_SIZE\<close> bytes, every entry of the history holds a
  terminated string, the console has a text input session (it is open), and the recall
  cursor lies between 0 and the count.
\<close>

definition recall_ok :: "Host \<Rightarrow> InGameConsole \<Rightarrow> bool" where
  "recall_ok h c \<longleftrightarrow>
     history_ok h c
     \<and> length (consoleCurrentLine c) = CONSOLE_INPUT_SIZE h
     \<and> list_all (\<lambda>row. NUL \<in> set row) (history_entries c)
     \<and> consoleTextInputSession c \<noteq> None
     \<and> 0 \<le> consoleHistoryIndex c \<and> consoleHistoryIndex c \<le> consoleHistoryCount c"

text \<open>A sequence of writes, each with its text and colour.\<close>

definition write_all :: "Host \<Rightarrow> (string \<times> FormatToken) list \<Rightarrow> InGameConsole \<Rightarrow> InGameConsole option"
  where
  "write_all h ws c = run_all (\<lambda>(input, colourFormat). WriteLine h input colourFormat) ws c"

subsection \<open>Concrete hosts and consoles\<close>

text \<open>
  A host with the given line cap, history capacity and line height of the medium font,
  buffers of four bytes, and a command interpreter that answers every command with one
  line.
\<close>

definition example_host :: "nat \<Rightarrow> int \<Rightarrow> int \<Rightarrow> Host" where
  "example_host maxLines historySize lineHeight =
     \<lparr>CONSOLE_MAX_LINES = maxLines, CONSOLE_HISTORY_SIZE = historySize,
      CONSOLE_INPUT_SIZE = 4, TEXT_INPUT_SIZE = 4,
      ConsoleSmallFont = False,
      FontGetLineHeight = (\<lambda>style. case style of Small \<Rightarrow> 6 | Medium \<Rightarrow> lineHeight),
      UTF8Length = length,
      GfxGetStringWidthNoFormatting = (\<lambda>s style. 6 * int (length s)),
      ContextGetWidth = 640,
      ContextStartTextInput = (\<lambda>buf. \<lparr>Size = 0, Length = 0, SelectionStart = 0\<rparr>),
      MainViewportPos = None,
      Execute = (\<lambda>line c. Some (c\<lparr>consoleLines := consoleLines c @ [''ok'']\<rparr>))\<rparr>"

text \<open>
  A closed console that has not been given its region yet, with the given scrollback, an
  empty edit line and an empty history of three entries.
\<close>

definition example_console :: "string list \<Rightarrow> InGameConsole" where
  "example_console ls =
     \<lparr>isOpen = False,
      consoleTopLeft = \<lparr>coord_x = 0, coord_y = 0\<rparr>,
      consoleBottomRight = \<lparr>coord_x = 0, coord_y = 0\<rparr>,
      lastMainViewport = \<lparr>coord_x = 0, coord_y = 0\<rparr>,
      consoleLines = ls,
      consoleCurrentLine = replicate 4 NUL,
      consoleCaretTicks = 0,
      consoleScrollPos = 0,
      consoleTextInputSession = None,
      consoleHistory = replicate 3 (replicate 4 NUL),
      consoleHistoryIndex = 0,
      consoleHistoryCount = 0,
      selectionStart = 0,
      caretScreenPosX = 0\<rparr>"

text \<open>
  An open console that shows a prompt and has two commands, \<open>ab\<close> and \<open>cd\<close>, in a
  history of three entries; the recall cursor is past the newest, and the edit line
  holds the given bytes.
\<close>

definition example_open_console :: "string \<Rightarrow> InGameConsole" where
  "example_open_console buf =
     (example_console [''> ''])
       \<lparr>isOpen := True,
        consoleBottomRight := \<lparr>coord_x = 640, coord_y = 322\<rparr>,
        consoleCurrentLine := buf,
        consoleTextInputSession := Some \<lparr>Size = 0, Length = 0, SelectionStart = 0\<rparr>,
        consoleHistory := [''ab'' @ [NUL, NUL], ''cd'' @ [NUL, NUL], replicate 4 NUL],
        consoleHistoryIndex := 2,
        consoleHistoryCount := 2\<rparr>"

section \<open>The visible line count\<close>

lemma consoleHeight_Update: "consoleHeight (Update h c) = 322"
  by (simp add: consoleHeight_def Update_def Let_def split: option.splits)

lemma GetNumVisibleLines_eq:
  "GetNumVisibleLines h c =
     (if consoleHeight c = 0 then Some 0
      else cpp_div (consoleHeight c - 2 * InGameConsoleGetLineHeight h - 4)
             (InGameConsoleGetLineHeight h))"
  by (simp add: GetNumVisibleLines_def consoleHeight_def Let_def)

lemma cpp_div_nonneg: "0 \<le> a \<Longrightarrow> 0 < b \<Longrightarrow> cpp_div a b = Some (a div b)"
  by (simp add: cpp_div_def sgn_if)

lemma cpp_div_neg: "a < 0 \<Longrightarrow> 0 < b \<Longrightarrow> cpp_div a b = Some (- ((- a) div b))"
  by (simp add: cpp_div_def sgn_if)

text \<open>
  C2, as the code has it. For a positive line height the count is 0 for a console of
  height 0 and otherwise the quotient of \<open>consoleHeight - 2 * lineHeight - 4\<close> by the
  line height, rounded towards zero and not clamped. It is the value of the
  specification, the clamped floor, whenever the height is 0 or leaves room for the
  input line and the chrome (\<open>2 * lineHeight + 4 \<le> consoleHeight\<close>).
\<close>

theorem GetNumVisibleLines_truncated_quotient:
  assumes "0 < InGameConsoleGetLineHeight h"
  shows "GetNumVisibleLines h c =
           Some (if consoleHeight c = 0 then 0
                 else if 0 \<le> consoleHeight c - 2 * InGameConsoleGetLineHeight h - 4
                 then (consoleHeight c - 2 * InGameConsoleGetLineHeight h - 4)
                        div InGameConsoleGetLineHeight h
                 else - ((2 * InGameConsoleGetLineHeight h + 4 - consoleHeight c)
                        div InGameConsoleGetLineHeight h))
         \<and> (consoleHeight c = 0 \<or> 2 * InGameConsoleGetLineHeight h + 4 \<le> consoleHeight c
              \<longrightarrow> GetNumVisibleLines h c =
                    Some (spec_visibleLineCount (consoleHeight c) (InGameConsoleGetLineHeight h)))"
proof -
  let ?lh = "InGameConsoleGetLineHeight h"
  let ?d = "consoleHeight c - 2 * ?lh - 4"
  have pos: "cpp_div ?d ?lh = Some (?d div ?lh)" if "0 \<le> ?d"
    using that assms by (rule cpp_div_nonneg)
  have m: "- ?d = 2 * ?lh + 4 - consoleHeight c"
    by simp
  have neg: "cpp_div ?d ?lh = Some (- ((2 * ?lh + 4 - consoleHeight c) div ?lh))"
    if "\<not> 0 \<le> ?d"
  proof -
    from that have "?d < 0" by simp
    then have "cpp_div ?d ?lh = Some (- ((- ?d) div ?lh))"
      using assms by (rule cpp_div_neg)
    then show ?thesis
      by (simp only: m)
  qed
  have first: "GetNumVisibleLines h c =
           Some (if consoleHeight c = 0 then 0
                 else if 0 \<le> ?d then ?d div ?lh
                 else - ((2 * ?lh + 4 - consoleHeight c) div ?lh))"
  proof (cases "consoleHeight c = 0")
    case True
    then show ?thesis by (simp add: GetNumVisibleLines_eq)
  next
    case False
    show ?thesis
    proof (cases "0 \<le> ?d")
      case True
      with False pos [OF True] show ?thesis by (simp only: GetNumVisibleLines_eq if_False if_True)
    next
      case no: False
      with False neg [OF no] show ?thesis by (simp only: GetNumVisibleLines_eq if_False)
    qed
  qed
  have "0 \<le> ?d \<Longrightarrow> 0 \<le> ?d div ?lh"
    using assms by (simp add: pos_imp_zdiv_nonneg_iff)
  then have second: "consoleHeight c = 0 \<or> 2 * ?lh + 4 \<le> consoleHeight c
      \<Longrightarrow> GetNumVisibleLines h c = Some (spec_visibleLineCount (consoleHeight c) ?lh)"
    using pos by (auto simp: GetNumVisibleLines_eq spec_visibleLineCount_def)
  from first second show ?thesis
    by blast
qed

text \<open>
  The scenario of the specification: a console of height 322 and a line height of 10
  show 29 lines.
\<close>

theorem GetNumVisibleLines_truncated_quotient_witness:
  "0 < InGameConsoleGetLineHeight (example_host 300 64 10)
   \<and> 2 * InGameConsoleGetLineHeight (example_host 300 64 10) + 4
       \<le> consoleHeight (Update (example_host 300 64 10) (example_console []))
   \<and> GetNumVisibleLines (example_host 300 64 10)
        (Update (example_host 300 64 10) (example_console [])) = Some 29
   \<and> spec_visibleLineCount 322 10 = 29"
  using GetNumVisibleLines_truncated_quotient
    [of "example_host 300 64 10" "Update (example_host 300 64 10) (example_console [])"]
  by (simp add: consoleHeight_Update example_host_def InGameConsoleGetLineHeight_def InGameConsoleGetFontStyle_def spec_visibleLineCount_def)

text \<open>
  C2 as the specification states it fails: the count is not clamped. A console of
  height 322 with a line height of 318 has a drawable height of \<open>-318\<close>, and the count
  is \<open>-1\<close> where the specification has 0.
\<close>

theorem GetNumVisibleLines_clamp_counterexample:
  "GetNumVisibleLines (example_host 300 64 318)
     (Update (example_host 300 64 318) (example_console [])) = Some (- 1)
   \<and> spec_visibleLineCount
        (consoleHeight (Update (example_host 300 64 318) (example_console [])))
        (InGameConsoleGetLineHeight (example_host 300 64 318)) = 0"
  by (simp add: GetNumVisibleLines_eq consoleHeight_Update example_host_def InGameConsoleGetLineHeight_def InGameConsoleGetFontStyle_def
      spec_visibleLineCount_def cpp_div_def)

section \<open>Writing lines\<close>

lemma split_lines_nonempty: "split_lines xs \<noteq> []"
  by (induction xs) auto

lemma split_lines_no_newline: "newline \<notin> set xs \<Longrightarrow> split_lines xs = [xs]"
  by (induction xs) auto

lemma split_lines_at_newline:
  "newline \<notin> set xs \<Longrightarrow> split_lines (xs @ newline # ys) = xs # split_lines ys"
  by (induction xs) auto

lemma length_split_lines: "length (split_lines xs) = count_list xs newline + 1"
proof (induction xs)
  case Nil
  show ?case by simp
next
  case (Cons ch cs)
  have "length (tl (split_lines cs)) + 1 = length (split_lines cs)"
    using split_lines_nonempty [of cs] by (cases "split_lines cs") auto
  with Cons show ?case by auto
qed

lemma split_lines_snoc_newline: "split_lines (xs @ [newline]) = split_lines xs @ [[]]"
proof (induction xs)
  case Nil
  show ?case by simp
next
  case (Cons ch cs)
  then show ?case
    using split_lines_nonempty [of cs] by (cases "split_lines cs") auto
qed

lemma string_find_None:
  assumes "string_find s ch pos = None"
  shows "ch \<notin> set (drop pos s)"
proof
  assume "ch \<in> set (drop pos s)"
  then obtain i where "i < length (drop pos s)" "drop pos s ! i = ch"
    by (auto simp: in_set_conv_nth)
  then have "pos + i \<in> set [pos..<length s]" "s ! (pos + i) = ch"
    by auto
  with assms show False
    unfolding string_find_def find_None_iff by blast
qed

lemma string_find_Some:
  assumes "string_find s ch pos = Some p"
  shows "pos \<le> p" and "p < length s"
    and "drop pos s = take (p - pos) (drop pos s) @ ch # drop (p + 1) s"
    and "ch \<notin> set (take (p - pos) (drop pos s))"
proof -
  from assms obtain i where i: "i < length [pos..<length s]" "s ! ([pos..<length s] ! i) = ch"
    "p = [pos..<length s] ! i" "\<forall>j<i. s ! ([pos..<length s] ! j) \<noteq> ch"
    unfolding string_find_def find_Some_iff by blast
  then have p: "p = pos + i" "pos + i < length s" "s ! p = ch"
    by auto
  show "pos \<le> p" "p < length s"
    using p by auto
  have "drop pos s = take i (drop pos s) @ drop pos s ! i # drop (Suc i) (drop pos s)"
    using p by (intro id_take_nth_drop) simp
  then show "drop pos s = take (p - pos) (drop pos s) @ ch # drop (p + 1) s"
    using p by (simp add: add.commute)
  show "ch \<notin> set (take (p - pos) (drop pos s))"
  proof
    assume "ch \<in> set (take (p - pos) (drop pos s))"
    then obtain j where j: "j < length (take (p - pos) (drop pos s))"
      "take (p - pos) (drop pos s) ! j = ch"
      by (auto simp: in_set_conv_nth)
    then have "j < i" "s ! (pos + j) = ch"
      using p by auto
    with i(4) p show False by auto
  qed
qed

lemma WriteLine_loop_split_lines:
  "stringOffset \<le> length input \<Longrightarrow>
   WriteLine_loop input cc stringOffset ls =
     Some (ls @ map (\<lambda>segment. cc @ segment) (split_lines (drop stringOffset input)))"
proof (induction input cc stringOffset ls rule: WriteLine_loop.induct)
  case (1 input cc off ls)
  show ?case
  proof (cases "string_find input newline off")
    case None
    then have "split_lines (drop off input) = [drop off input]"
      by (intro split_lines_no_newline string_find_None)
    with None "1.prems" show ?thesis
      by (subst WriteLine_loop.simps) (simp add: substr_def)
  next
    case (Some p)
    note f = string_find_Some [OF Some]
    let ?line = "take (p - off) (drop off input)"
    have sub: "substr input off (Some (p - off)) = Some ?line"
      using "1.prems" by (simp add: substr_def)
    have "split_lines (drop off input) = split_lines (?line @ newline # drop (p + 1) input)"
      using f(3) by simp
    also have "\<dots> = ?line # split_lines (drop (p + 1) input)"
      using f(4) by (rule split_lines_at_newline)
    finally have sp: "split_lines (drop off input) = ?line # split_lines (drop (p + 1) input)" .
    have "WriteLine_loop input cc (p + 1) (ls @ [cc @ ?line]) =
        Some ((ls @ [cc @ ?line]) @ map (\<lambda>segment. cc @ segment) (split_lines (drop (p + 1) input)))"
      using "1.IH" [of "Some p" ?line "ls @ [cc @ ?line]" p] Some sub f(2) by simp
    then show ?thesis
      using Some sub sp by (subst WriteLine_loop.simps) simp
  qed
qed

lemma WriteLine_eq:
  "WriteLine h input colourFormat c =
     Some (c\<lparr>consoleLines :=
       drop_oldest (CONSOLE_MAX_LINES h) (consoleLines c @ appended_lines input colourFormat)\<rparr>)"
  by (simp add: WriteLine_def WriteLine_loop_split_lines appended_lines_def drop_oldest_def Let_def)

lemma length_drop_oldest: "length (drop_oldest n xs) \<le> n"
  by (simp add: drop_oldest_def)

lemma drop_oldest_append: "drop_oldest n (drop_oldest n xs @ ys) = drop_oldest n (xs @ ys)"
proof (cases "length xs \<le> n")
  case True
  then show ?thesis by (simp add: drop_oldest_def)
next
  case False
  then have "length xs - n + length ys = length xs + length ys - n"
    by simp
  with False show ?thesis
    by (simp add: drop_oldest_def add.commute)
qed

lemma drop_oldest_id: "length xs \<le> n \<Longrightarrow> drop_oldest n xs = xs"
  by (simp add: drop_oldest_def)

lemma write_all_eq:
  "ws \<noteq> [] \<or> length (consoleLines c) \<le> CONSOLE_MAX_LINES h \<Longrightarrow>
   write_all h ws c =
     Some (c\<lparr>consoleLines := drop_oldest (CONSOLE_MAX_LINES h)
       (consoleLines c @ concat (map (\<lambda>(input, colourFormat). appended_lines input colourFormat) ws))\<rparr>)"
proof (induction ws arbitrary: c)
  case Nil
  then show ?case by (simp add: write_all_def drop_oldest_id)
next
  case (Cons w ws)
  obtain input colourFormat where w: "w = (input, colourFormat)"
    by (cases w)
  let ?c1 = "c\<lparr>consoleLines :=
       drop_oldest (CONSOLE_MAX_LINES h) (consoleLines c @ appended_lines input colourFormat)\<rparr>"
  have "write_all h (w # ws) c = write_all h ws ?c1"
    by (simp add: write_all_def w WriteLine_eq)
  also have "\<dots> = Some (?c1\<lparr>consoleLines := drop_oldest (CONSOLE_MAX_LINES h)
       (consoleLines ?c1 @ concat (map (\<lambda>(input, colourFormat). appended_lines input colourFormat) ws))\<rparr>)"
    by (rule Cons.IH) (simp add: length_drop_oldest)
  finally show ?case
    by (simp add: w drop_oldest_append)
qed

text \<open>
  C3. A sequence of writes, started with at most \<^verbatim>\<open>CONSOLE_MAX_LINES\<close> lines or not
  empty, has a result; it leaves at most \<^verbatim>\<open>CONSOLE_MAX_LINES\<close> lines and changes
  nothing but the scrollback, which is the old lines followed by all written lines in
  their order, without the first \<open>count - CONSOLE_MAX_LINES\<close> of them. For a single
  write this is what the erase at its end removes.
\<close>

theorem WriteLine_keeps_most_recent_lines:
  assumes "ws \<noteq> [] \<or> length (consoleLines c) \<le> CONSOLE_MAX_LINES h"
  shows "\<exists>c'. write_all h ws c = Some c'
           \<and> length (consoleLines c') \<le> CONSOLE_MAX_LINES h
           \<and> c' = c\<lparr>consoleLines :=
                 drop (length (consoleLines c @ concat (map (\<lambda>(input, colourFormat).
                          appended_lines input colourFormat) ws)) - CONSOLE_MAX_LINES h)
                   (consoleLines c @ concat (map (\<lambda>(input, colourFormat).
                          appended_lines input colourFormat) ws))\<rparr>"
  using write_all_eq [OF assms] length_drop_oldest [of "CONSOLE_MAX_LINES h"]
  by (simp add: drop_oldest_def)

text \<open>
  With a cap of three lines, writing \<open>c\<close> and \<open>d\<close> in one call and \<open>e\<close> in the next after
  \<open>a\<close> and \<open>b\<close> leaves \<open>c\<close>, \<open>d\<close>, \<open>e\<close>.
\<close>

theorem WriteLine_keeps_most_recent_lines_witness:
  "length (consoleLines (example_console [''a'', ''b''])) \<le> CONSOLE_MAX_LINES (example_host 3 3 10)
   \<and> write_all (example_host 3 3 10)
        [(''c\<newline>d'', ColourWindow2), (''e'', ColourWindow2)] (example_console [''a'', ''b''])
       = Some ((example_console [''a'', ''b''])\<lparr>consoleLines := [''c'', ''d'', ''e'']\<rparr>)"
proof -
  let ?h = "example_host 3 3 10"
  let ?c = "example_console [''a'', ''b'']"
  let ?ws = "[(''c\<newline>d'', ColourWindow2), (''e'', ColourWindow2)]"
  have le: "length (consoleLines ?c) \<le> CONSOLE_MAX_LINES ?h"
    by (simp add: example_host_def InGameConsoleGetLineHeight_def InGameConsoleGetFontStyle_def example_console_def)
  then have "?ws \<noteq> [] \<or> length (consoleLines ?c) \<le> CONSOLE_MAX_LINES ?h"
    by simp
  from WriteLine_keeps_most_recent_lines [OF this] obtain c'
    where c': "write_all ?h ?ws ?c = Some c'"
      "c' = ?c\<lparr>consoleLines :=
                 drop (length (consoleLines ?c @ concat (map (\<lambda>(input, colourFormat).
                          appended_lines input colourFormat) ?ws)) - CONSOLE_MAX_LINES ?h)
                   (consoleLines ?c @ concat (map (\<lambda>(input, colourFormat).
                          appended_lines input colourFormat) ?ws))\<rparr>"
    by blast
  have "consoleLines ?c @ concat (map (\<lambda>(input, colourFormat).
                          appended_lines input colourFormat) ?ws) = [''a'', ''b'', ''c'', ''d'', ''e'']"
    by (simp add: example_console_def appended_lines_def colourCodepoint_def)
  then have "c' = ?c\<lparr>consoleLines := [''c'', ''d'', ''e'']\<rparr>"
    unfolding c'(2) by (simp add: example_host_def InGameConsoleGetLineHeight_def InGameConsoleGetFontStyle_def)
  with c'(1) le show ?thesis
    by simp
qed

text \<open>
  C10. A write appends, before the oldest lines are dropped, one line more than the
  text has newlines, so never no line: for the empty text one line with an empty
  segment, and for a text that ends in a newline a last line with an empty segment.
\<close>

theorem WriteLine_appends_newlines_plus_one:
  "WriteLine h input colourFormat c =
     Some (c\<lparr>consoleLines :=
       drop (length (consoleLines c @ appended_lines input colourFormat) - CONSOLE_MAX_LINES h)
         (consoleLines c @ appended_lines input colourFormat)\<rparr>)
   \<and> length (appended_lines input colourFormat) = count_list input newline + 1
   \<and> appended_lines [] colourFormat = [colourCodepoint colourFormat]
   \<and> appended_lines (input @ [newline]) colourFormat =
       appended_lines input colourFormat @ [colourCodepoint colourFormat]"
  using WriteLine_eq [of h input colourFormat c]
  by (simp add: drop_oldest_def appended_lines_def length_split_lines split_lines_snoc_newline)

text \<open>The text \<open>a\<close> followed by a newline gives two lines, the empty text one.\<close>

theorem WriteLine_appends_newlines_plus_one_witness:
  "WriteLine (example_host 300 64 10) ''a\<newline>'' ColourWindow2 (example_console []) =
     Some ((example_console [])\<lparr>consoleLines := [''a'', '''']\<rparr>)
   \<and> WriteLine (example_host 300 64 10) '''' ColourWindow2 (example_console []) =
     Some ((example_console [])\<lparr>consoleLines := ['''']\<rparr>)"
  using WriteLine_appends_newlines_plus_one
      [of "example_host 300 64 10" "''a\<newline>''" ColourWindow2 "example_console []"]
    WriteLine_appends_newlines_plus_one
      [of "example_host 300 64 10" "''''" ColourWindow2 "example_console []"]
  by (simp add: example_host_def InGameConsoleGetLineHeight_def InGameConsoleGetFontStyle_def example_console_def colourCodepoint_def drop_oldest_def
      appended_lines_def)

text \<open>
  C9 at a write in red. The code puts the fixed text \<^verbatim>\<open>{WINDOW_COLOUR_2}\<close>, the tag of
  the default colour, in front of the line, where the specification has the tag of the
  colour that was passed. A write in the default colour splits the text and adds no
  tag, as the specification says.
\<close>

theorem WriteLine_colour_tag_is_fixed:
  "WriteLine (example_host 300 64 10) ''x'' ColourRed (example_console []) =
     Some ((example_console [])\<lparr>consoleLines := [''{WINDOW_COLOUR_2}x'']\<rparr>)
   \<and> spec_written_lines ''x'' ColourRed = [''{RED}x'']
   \<and> WriteLine (example_host 300 64 10) ''hello\<newline>world'' ColourWindow2 (example_console []) =
     Some ((example_console [])\<lparr>consoleLines := [''hello'', ''world'']\<rparr>)"
  by (simp add: WriteLine_eq example_host_def InGameConsoleGetLineHeight_def InGameConsoleGetFontStyle_def example_console_def colourCodepoint_def
      drop_oldest_def appended_lines_def spec_written_lines_def spec_colourTag_def)

section \<open>Adding to the history\<close>

lemma memcpy_whole: "length src = n \<Longrightarrow> length dst = n \<Longrightarrow> memcpy dst src n = Some src"
  by (simp add: memcpy_def)

lemma HistoryAdd_shift_nth:
  "0 \<le> i \<Longrightarrow> cnt \<le> int (length hist) \<Longrightarrow> list_all (\<lambda>row. length row = n) hist \<Longrightarrow>
   \<exists>hist'. HistoryAdd_shift n i cnt hist = Some hist'
     \<and> length hist' = length hist
     \<and> list_all (\<lambda>row. length row = n) hist'
     \<and> (\<forall>j<length hist. hist' ! j =
           (if i \<le> int j \<and> int j < cnt - 1 then hist ! (j + 1) else hist ! j))"
proof (induction n i cnt hist rule: HistoryAdd_shift.induct)
  case (1 n i cnt hist)
  show ?case
  proof (cases "i < cnt - 1")
    case False
    then show ?thesis
      using "1.prems" by (subst HistoryAdd_shift.simps) auto
  next
    case lt: True
    let ?row = "hist ! nat (i + 1)"
    let ?hist1 = "hist[nat i := ?row]"
    have in_range: "0 \<le> i \<and> i + 1 < int (length hist)"
      using lt "1.prems" by simp
    have "nat i < length hist" "nat (i + 1) < length hist"
      using in_range by auto
    then have rows: "length (hist ! nat i) = n" "length ?row = n"
      using "1.prems"(3) by (auto simp: list_all_iff)
    then have cp: "memcpy (hist ! nat i) ?row n = Some ?row"
      by (simp add: memcpy_whole)
    have all1: "list_all (\<lambda>row. length row = n) ?hist1"
      using "1.prems"(3) rows by (auto simp: list_all_iff dest: set_update_subset_insert [THEN subsetD])
    obtain hist' where h': "HistoryAdd_shift n (i + 1) cnt ?hist1 = Some hist'"
      "length hist' = length ?hist1" "list_all (\<lambda>row. length row = n) hist'"
      "\<forall>j<length ?hist1. hist' ! j =
           (if i + 1 \<le> int j \<and> int j < cnt - 1 then ?hist1 ! (j + 1) else ?hist1 ! j)"
      using "1.IH" [OF lt in_range cp _ _ all1] "1.prems" by auto
    have step: "HistoryAdd_shift n i cnt hist = Some hist'"
      using lt in_range cp h'(1) by (subst HistoryAdd_shift.simps) simp
    have "hist' ! j = (if i \<le> int j \<and> int j < cnt - 1 then hist ! (j + 1) else hist ! j)"
      if "j < length hist" for j
    proof -
      have e: "hist' ! j =
          (if i + 1 \<le> int j \<and> int j < cnt - 1 then ?hist1 ! (j + 1) else ?hist1 ! j)"
        using h'(4) that by simp
      show ?thesis
      proof (cases "int j = i")
        case eq: True
        then have "nat i = j" "nat (i + 1) = j + 1"
          by auto
        with e eq lt that show ?thesis by simp
      next
        case False
        then have "j \<noteq> nat i" "i + 1 \<le> int j \<Longrightarrow> j + 1 \<noteq> nat i"
          using in_range by auto
        with e False show ?thesis by auto
      qed
    qed
    with step h'(2,3) show ?thesis by simp
  qed
qed

lemma HistoryAdd_step:
  assumes ok: "history_ok h c" and src: "length src = CONSOLE_INPUT_SIZE h"
  shows "\<exists>c'. HistoryAdd h src c = Some c' \<and> history_ok h c'
     \<and> history_entries c' =
         drop_oldest (nat (CONSOLE_HISTORY_SIZE h)) (history_entries c @ [src])
     \<and> consoleHistoryIndex c' = consoleHistoryCount c'
     \<and> consoleHistoryCount c' = int (length (history_entries c'))"
proof -
  let ?N = "CONSOLE_HISTORY_SIZE h"
  let ?n = "CONSOLE_INPUT_SIZE h"
  let ?hist = "consoleHistory c"
  let ?cnt = "consoleHistoryCount c"
  from ok have N: "0 < ?N" and len: "int (length ?hist) = ?N"
    and rows: "list_all (\<lambda>row. length row = ?n) ?hist"
    and cnt: "0 \<le> ?cnt" "?cnt \<le> ?N" and n: "0 < ?n"
    by (simp_all add: history_ok_def)
  show ?thesis
  proof (cases "?cnt \<ge> ?N")
    case False
    then have lt: "nat ?cnt < length ?hist"
      using cnt len by linarith
    then have "length (?hist ! nat ?cnt) = ?n"
      using rows by (auto simp: list_all_iff)
    then have cp: "memcpy (?hist ! nat ?cnt) src ?n = Some src"
      using src by (simp add: memcpy_whole)
    let ?c' = "c\<lparr>consoleHistory := ?hist[nat ?cnt := src],
        consoleHistoryCount := ?cnt + 1, consoleHistoryIndex := ?cnt + 1\<rparr>"
    have run: "HistoryAdd h src c = Some ?c'"
      using False cnt lt cp by (simp add: HistoryAdd_def Let_def)
    have rows': "list_all (\<lambda>row. length row = ?n) (?hist[nat ?cnt := src])"
      using rows src by (auto simp: list_all_iff dest: set_update_subset_insert [THEN subsetD])
    have ok': "history_ok h ?c'"
      using N n len rows' cnt False by (simp add: history_ok_def)
    have "take (Suc (nat ?cnt)) (?hist[nat ?cnt := src]) = take (nat ?cnt) ?hist @ [src]"
      using lt by (simp add: take_Suc_conv_app_nth)
    moreover have "nat (?cnt + 1) = Suc (nat ?cnt)"
      using cnt by simp
    ultimately have ent: "history_entries ?c' = history_entries c @ [src]"
      by (simp add: history_entries_def)
    have "length (history_entries c @ [src]) \<le> nat ?N"
      using lt len cnt False by (simp add: history_entries_def)
    then have "drop_oldest (nat ?N) (history_entries c @ [src]) = history_entries c @ [src]"
      by (rule drop_oldest_id)
    with ent have ent': "history_entries ?c' =
        drop_oldest (nat ?N) (history_entries c @ [src])"
      by simp
    have "int (length (history_entries ?c')) = ?cnt + 1"
      using lt cnt by (simp add: history_entries_def)
    with run ok' ent' show ?thesis
      by simp
  next
    case True
    then have full: "?cnt = ?N" "nat ?cnt = length ?hist"
      using cnt len by auto
    obtain hist' where h': "HistoryAdd_shift ?n 0 ?cnt ?hist = Some hist'"
      "length hist' = length ?hist" "list_all (\<lambda>row. length row = ?n) hist'"
      "\<forall>j<length ?hist. hist' ! j =
           (if 0 \<le> int j \<and> int j < ?cnt - 1 then ?hist ! (j + 1) else ?hist ! j)"
      using HistoryAdd_shift_nth [of 0 ?cnt ?hist ?n] rows cnt len by auto
    have pos: "0 < length ?hist"
      using N len by linarith
    let ?k = "length ?hist - 1"
    have k: "nat (?cnt - 1) = ?k" "?k < length hist'" "0 \<le> ?cnt - 1"
      "?cnt - 1 < int (length hist')"
      using full pos h'(2) N by auto
    have "length (hist' ! ?k) = ?n"
      using h'(3) k(2) by (auto simp: list_all_iff)
    then have cp: "memcpy (hist' ! ?k) src ?n = Some src"
      using src by (simp add: memcpy_whole)
    let ?c' = "c\<lparr>consoleHistory := hist'[?k := src],
        consoleHistoryCount := ?cnt, consoleHistoryIndex := ?cnt\<rparr>"
    have run: "HistoryAdd h src c = Some ?c'"
      using True h'(1) k cp by (simp add: HistoryAdd_def Let_def)
    have rows': "list_all (\<lambda>row. length row = ?n) (hist'[?k := src])"
      using h'(3) src by (auto simp: list_all_iff dest: set_update_subset_insert [THEN subsetD])
    have ok': "history_ok h ?c'"
      using N n len rows' cnt h'(2) by (simp add: history_ok_def)
    have old: "history_entries c = ?hist"
      using full by (simp add: history_entries_def)
    have new: "history_entries ?c' = hist'[?k := src]"
      using full h'(2) by (simp add: history_entries_def)
    have "hist'[?k := src] = drop 1 (?hist @ [src])"
    proof (rule nth_equalityI)
      show "length (hist'[?k := src]) = length (drop 1 (?hist @ [src]))"
        using h'(2) by simp
    next
      fix j
      assume "j < length (hist'[?k := src])"
      then have j: "j < length ?hist"
        using h'(2) by simp
      have d: "drop 1 (?hist @ [src]) ! j = (?hist @ [src]) ! (1 + j)"
        by (rule nth_drop) simp
      show "hist'[?k := src] ! j = drop 1 (?hist @ [src]) ! j"
      proof (cases "j = ?k")
        case True
        then have "1 + j = length ?hist"
          using pos by simp
        then have "(?hist @ [src]) ! (1 + j) = src"
          by (simp only: nth_append_length)
        with d True k(2) show ?thesis
          by simp
      next
        case False
        then have in_range: "int j < ?cnt - 1" "1 + j < length ?hist"
          using j full by auto
        then have "(?hist @ [src]) ! (1 + j) = ?hist ! (j + 1)"
          by (simp add: nth_append)
        moreover have "hist' ! j = ?hist ! (j + 1)"
          using h'(4) j in_range by simp
        ultimately show ?thesis
          using d False by simp
      qed
    qed
    moreover have "drop_oldest (nat ?N) (?hist @ [src]) = drop 1 (?hist @ [src])"
      using full by (simp add: drop_oldest_def)
    ultimately have ent': "history_entries ?c' =
        drop_oldest (nat ?N) (history_entries c @ [src])"
      using old new by simp
    have "int (length (history_entries ?c')) = ?cnt"
      using new h'(2) full len by simp
    with run ok' ent' show ?thesis
      by simp
  qed
qed

lemma HistoryAdd_all:
  assumes "history_ok h c" and "list_all (\<lambda>src. length src = CONSOLE_INPUT_SIZE h) srcs"
  shows "\<exists>c'. run_all (HistoryAdd h) srcs c = Some c' \<and> history_ok h c'
     \<and> history_entries c' =
         drop_oldest (nat (CONSOLE_HISTORY_SIZE h)) (history_entries c @ srcs)
     \<and> (srcs \<noteq> [] \<longrightarrow> consoleHistoryIndex c' = consoleHistoryCount c'
           \<and> consoleHistoryCount c' = int (length (history_entries c')))"
  using assms
proof (induction srcs arbitrary: c)
  case Nil
  then have "length (history_entries c) \<le> nat (CONSOLE_HISTORY_SIZE h)"
    by (auto simp: history_ok_def history_entries_def)
  with Nil show ?case
    by (simp add: drop_oldest_id)
next
  case (Cons src srcs)
  from Cons.prems obtain c1 where c1: "HistoryAdd h src c = Some c1" "history_ok h c1"
    "history_entries c1 = drop_oldest (nat (CONSOLE_HISTORY_SIZE h)) (history_entries c @ [src])"
    "consoleHistoryIndex c1 = consoleHistoryCount c1"
    "consoleHistoryCount c1 = int (length (history_entries c1))"
    using HistoryAdd_step [of h c src] by auto
  from Cons.prems have "list_all (\<lambda>src. length src = CONSOLE_INPUT_SIZE h) srcs"
    by simp
  from Cons.IH [OF c1(2) this] obtain c' where c': "run_all (HistoryAdd h) srcs c1 = Some c'"
    "history_ok h c'"
    "history_entries c' =
       drop_oldest (nat (CONSOLE_HISTORY_SIZE h)) (history_entries c1 @ srcs)"
    "srcs \<noteq> [] \<longrightarrow> consoleHistoryIndex c' = consoleHistoryCount c'
       \<and> consoleHistoryCount c' = int (length (history_entries c'))"
    by auto
  have run: "run_all (HistoryAdd h) (src # srcs) c = Some c'"
    using c1(1) c'(1) by simp
  have ent: "history_entries c' =
      drop_oldest (nat (CONSOLE_HISTORY_SIZE h)) (history_entries c @ src # srcs)"
    using c'(3) c1(3) drop_oldest_append [of _ "history_entries c @ [src]" srcs] by simp
  have "consoleHistoryIndex c' = consoleHistoryCount c'
      \<and> consoleHistoryCount c' = int (length (history_entries c'))"
  proof (cases "srcs = []")
    case True
    with c'(1) c1(4,5) show ?thesis by simp
  next
    case False
    with c'(4) show ?thesis by simp
  qed
  with run c'(2) ent show ?case
    by simp
qed

text \<open>
  C4. On a history with a capacity of \<open>N = CONSOLE_HISTORY_SIZE\<close>, every sequence of
  calls of \<^verbatim>\<open>HistoryAdd\<close> with edit buffers has a result; the ring then holds at most
  \<open>N\<close> entries: the old entries followed by the added ones in their order, without the
  first \<open>count - N\<close> of them. After an add, the recall cursor and the count are the
  number of entries.
\<close>

theorem HistoryAdd_keeps_most_recent:
  assumes "history_ok h c" and "list_all (\<lambda>src. length src = CONSOLE_INPUT_SIZE h) srcs"
  shows "\<exists>c'. run_all (HistoryAdd h) srcs c = Some c'
     \<and> history_ok h c'
     \<and> int (length (history_entries c')) \<le> CONSOLE_HISTORY_SIZE h
     \<and> history_entries c' =
         drop (length (history_entries c @ srcs) - nat (CONSOLE_HISTORY_SIZE h))
           (history_entries c @ srcs)
     \<and> (srcs \<noteq> [] \<longrightarrow> consoleHistoryIndex c' = int (length (history_entries c'))
           \<and> consoleHistoryCount c' = int (length (history_entries c')))"
proof -
  from HistoryAdd_all [OF assms] obtain c' where c': "run_all (HistoryAdd h) srcs c = Some c'"
    "history_ok h c'"
    "history_entries c' =
       drop_oldest (nat (CONSOLE_HISTORY_SIZE h)) (history_entries c @ srcs)"
    "srcs \<noteq> [] \<longrightarrow> consoleHistoryIndex c' = consoleHistoryCount c'
       \<and> consoleHistoryCount c' = int (length (history_entries c'))"
    by auto
  have "length (history_entries c') \<le> nat (CONSOLE_HISTORY_SIZE h)"
    using c'(3) length_drop_oldest [of "nat (CONSOLE_HISTORY_SIZE h)"] by simp
  moreover have "0 < CONSOLE_HISTORY_SIZE h"
    using assms(1) by (simp add: history_ok_def)
  ultimately have le: "int (length (history_entries c')) \<le> CONSOLE_HISTORY_SIZE h"
    by linarith
  have ent: "history_entries c' =
      drop (length (history_entries c @ srcs) - nat (CONSOLE_HISTORY_SIZE h))
        (history_entries c @ srcs)"
    using c'(3) by (simp only: drop_oldest_def)
  have cur: "srcs \<noteq> [] \<longrightarrow> consoleHistoryIndex c' = int (length (history_entries c'))
      \<and> consoleHistoryCount c' = int (length (history_entries c'))"
    using c'(4) by simp
  from c'(1,2) le ent cur show ?thesis
    by blast
qed

lemma HistoryAdd_frame:
  "HistoryAdd h src c = Some c' \<Longrightarrow>
   c' = c\<lparr>consoleHistory := consoleHistory c',
          consoleHistoryCount := consoleHistoryCount c',
          consoleHistoryIndex := consoleHistoryIndex c'\<rparr>"
  by (auto simp: HistoryAdd_def Let_def split: if_splits bind_splits)

text \<open>
  The scenario of the specification: with a capacity of 3, adding \<open>a\<close>, \<open>b\<close>, \<open>c\<close>, \<open>d\<close>
  leaves \<open>b\<close>, \<open>c\<close>, \<open>d\<close> and the cursor at 3.
\<close>

theorem HistoryAdd_keeps_most_recent_witness:
  "history_ok (example_host 300 3 10) (example_console [])
   \<and> list_all (\<lambda>src. length src = CONSOLE_INPUT_SIZE (example_host 300 3 10))
       [''a'' @ replicate 3 NUL, ''b'' @ replicate 3 NUL, ''c'' @ replicate 3 NUL,
        ''d'' @ replicate 3 NUL]
   \<and> map_option history_entries
       (run_all (HistoryAdd (example_host 300 3 10))
         [''a'' @ replicate 3 NUL, ''b'' @ replicate 3 NUL, ''c'' @ replicate 3 NUL,
          ''d'' @ replicate 3 NUL] (example_console []))
      = Some [''b'' @ replicate 3 NUL, ''c'' @ replicate 3 NUL, ''d'' @ replicate 3 NUL]
   \<and> map_option consoleHistoryIndex
       (run_all (HistoryAdd (example_host 300 3 10))
         [''a'' @ replicate 3 NUL, ''b'' @ replicate 3 NUL, ''c'' @ replicate 3 NUL,
          ''d'' @ replicate 3 NUL] (example_console []))
      = Some 3"
proof -
  let ?h = "example_host 300 3 10"
  let ?srcs = "[''a'' @ replicate 3 NUL, ''b'' @ replicate 3 NUL, ''c'' @ replicate 3 NUL,
        ''d'' @ replicate 3 NUL]"
  have ok: "history_ok ?h (example_console [])"
    by (simp add: history_ok_def example_host_def InGameConsoleGetLineHeight_def InGameConsoleGetFontStyle_def example_console_def list_all_iff)
  have srcs: "list_all (\<lambda>src. length src = CONSOLE_INPUT_SIZE ?h) ?srcs"
    by (simp add: example_host_def InGameConsoleGetLineHeight_def InGameConsoleGetFontStyle_def)
  have e: "history_entries (example_console []) = []"
    by (simp add: history_entries_def example_console_def)
  have N: "CONSOLE_HISTORY_SIZE ?h = 3"
    by (simp add: example_host_def InGameConsoleGetLineHeight_def InGameConsoleGetFontStyle_def)
  from HistoryAdd_keeps_most_recent [OF ok srcs] obtain c'
    where c': "run_all (HistoryAdd ?h) ?srcs (example_console []) = Some c'"
      "history_entries c' =
         drop (length (history_entries (example_console []) @ ?srcs) - nat (CONSOLE_HISTORY_SIZE ?h))
           (history_entries (example_console []) @ ?srcs)"
      "?srcs \<noteq> [] \<longrightarrow> consoleHistoryIndex c' = int (length (history_entries c'))
           \<and> consoleHistoryCount c' = int (length (history_entries c'))"
    by blast
  have ent: "history_entries c' =
      [''b'' @ replicate 3 NUL, ''c'' @ replicate 3 NUL, ''d'' @ replicate 3 NUL]"
    unfolding c'(2) e N by simp
  have "consoleHistoryIndex c' = 3"
    using c'(3) ent by simp
  with ok srcs c'(1) ent show ?thesis
    by simp
qed

section \<open>Scrolling\<close>

lemma GetNumVisibleLines_update [simp]:
  "GetNumVisibleLines h (c\<lparr>consoleScrollPos := p\<rparr>) = GetNumVisibleLines h c"
  "GetNumVisibleLines h (c\<lparr>consoleLines := ls\<rparr>) = GetNumVisibleLines h c"
  "GetNumVisibleLines h (c\<lparr>consoleCurrentLine := buf\<rparr>) = GetNumVisibleLines h c"
  "GetNumVisibleLines h (c\<lparr>consoleCaretTicks := t\<rparr>) = GetNumVisibleLines h c"
  "GetNumVisibleLines h (c\<lparr>selectionStart := a\<rparr>) = GetNumVisibleLines h c"
  "GetNumVisibleLines h (c\<lparr>caretScreenPosX := b\<rparr>) = GetNumVisibleLines h c"
  by (simp_all add: GetNumVisibleLines_def)

lemma Scroll_eq:
  "GetNumVisibleLines h c = Some n \<Longrightarrow>
   Scroll h d c =
     Some (if int (length (consoleLines c)) > n
           then c\<lparr>consoleScrollPos :=
                    clamp (consoleScrollPos c - d) 0 (int (length (consoleLines c)) - n)\<rparr>
           else c)"
  by (simp add: Scroll_def Let_def)

lemma clamp_range: "lo \<le> hi \<Longrightarrow> lo \<le> clamp v lo hi \<and> clamp v lo hi \<le> hi"
  by (simp add: clamp_def)

lemma Scroll_in_range_step:
  assumes "scroll_in_range h c"
  shows "\<exists>m. max_scroll h c = Some m
           \<and> Scroll h d c = Some (c\<lparr>consoleScrollPos := clamp (consoleScrollPos c - d) 0 m\<rparr>)
           \<and> scroll_in_range h (c\<lparr>consoleScrollPos := clamp (consoleScrollPos c - d) 0 m\<rparr>)"
proof -
  from assms obtain n where n: "GetNumVisibleLines h c = Some n"
    by (auto simp: scroll_in_range_def max_scroll_def split: option.splits)
  let ?m = "max 0 (int (length (consoleLines c)) - n)"
  have m: "max_scroll h c = Some ?m"
    using n by (simp add: max_scroll_def)
  have range: "0 \<le> consoleScrollPos c" "consoleScrollPos c \<le> ?m"
    using assms m by (simp_all add: scroll_in_range_def)
  let ?c' = "c\<lparr>consoleScrollPos := clamp (consoleScrollPos c - d) 0 ?m\<rparr>"
  have run: "Scroll h d c = Some ?c'"
  proof (cases "int (length (consoleLines c)) > n")
    case True
    then show ?thesis
      using n by (simp add: Scroll_eq max_def)
  next
    case False
    then have "?m = 0"
      by simp
    with range have "consoleScrollPos c = 0"
      by simp
    then have e: "clamp (consoleScrollPos c - d) 0 ?m = consoleScrollPos c"
      using \<open>?m = 0\<close> by (simp add: clamp_def)
    have s: "Scroll h d c = Some c"
      using False n by (simp add: Scroll_eq)
    have eq: "?c' = c"
      unfolding e by simp
    show ?thesis
      by (subst eq) (rule s)
  qed
  have "GetNumVisibleLines h ?c' = Some n"
    using n by simp
  then have "max_scroll h ?c' = Some ?m"
    by (simp add: max_scroll_def)
  moreover have "0 \<le> clamp (consoleScrollPos c - d) 0 ?m \<and> clamp (consoleScrollPos c - d) 0 ?m \<le> ?m"
    by (rule clamp_range) simp
  ultimately have "scroll_in_range h ?c'"
    by (simp add: scroll_in_range_def)
  with m run show ?thesis
    by blast
qed

lemma Scroll_in_range_all:
  "scroll_in_range h c \<Longrightarrow>
   \<exists>p. run_all (Scroll h) ds c = Some (c\<lparr>consoleScrollPos := p\<rparr>)
     \<and> scroll_in_range h (c\<lparr>consoleScrollPos := p\<rparr>)"
proof (induction ds arbitrary: c)
  case Nil
  then show ?case
    by (intro exI [of _ "consoleScrollPos c"]) simp
next
  case (Cons d ds)
  from Scroll_in_range_step [OF Cons.prems, of d] obtain m
    where m: "Scroll h d c = Some (c\<lparr>consoleScrollPos := clamp (consoleScrollPos c - d) 0 m\<rparr>)"
      "scroll_in_range h (c\<lparr>consoleScrollPos := clamp (consoleScrollPos c - d) 0 m\<rparr>)"
    by blast
  from Cons.IH [OF m(2)] obtain p where
    p: "run_all (Scroll h) ds (c\<lparr>consoleScrollPos := clamp (consoleScrollPos c - d) 0 m\<rparr>) =
          Some (c\<lparr>consoleScrollPos := p\<rparr>)"
      "scroll_in_range h (c\<lparr>consoleScrollPos := p\<rparr>)"
    by auto
  from m(1) p show ?case
    by auto
qed

text \<open>
  C5, as the code has it. With a defined line count \<open>n\<close>, \<^verbatim>\<open>Scroll\<close> subtracts the
  delta and clamps to \<open>[0, totalLines - n]\<close> when there are more lines than \<open>n\<close>, and
  leaves the offset as it is otherwise. On a console whose offset lies within
  \<open>[0, max(0, totalLines - n)]\<close> this is the clamp of the specification, and every
  sequence of calls has a result, changes the offset only and keeps it in that range.
\<close>

theorem Scroll_keeps_offset_in_range:
  assumes "GetNumVisibleLines h c = Some n"
  shows "Scroll h d c =
           Some (if n < int (length (consoleLines c))
                 then c\<lparr>consoleScrollPos :=
                          clamp (consoleScrollPos c - d) 0 (int (length (consoleLines c)) - n)\<rparr>
                 else c)
         \<and> (scroll_in_range h c \<longrightarrow>
               Scroll h d c =
                 Some (c\<lparr>consoleScrollPos :=
                         clamp (consoleScrollPos c - d) 0
                           (max 0 (int (length (consoleLines c)) - n))\<rparr>)
               \<and> (\<exists>p. run_all (Scroll h) ds c = Some (c\<lparr>consoleScrollPos := p\<rparr>)
                      \<and> scroll_in_range h (c\<lparr>consoleScrollPos := p\<rparr>)))"
proof -
  have m: "max_scroll h c = Some (max 0 (int (length (consoleLines c)) - n))"
    using assms by (simp add: max_scroll_def)
  have first: "Scroll h d c =
           Some (if n < int (length (consoleLines c))
                 then c\<lparr>consoleScrollPos :=
                          clamp (consoleScrollPos c - d) 0 (int (length (consoleLines c)) - n)\<rparr>
                 else c)"
    using assms by (rule Scroll_eq)
  have second: "Scroll h d c =
                 Some (c\<lparr>consoleScrollPos :=
                         clamp (consoleScrollPos c - d) 0
                           (max 0 (int (length (consoleLines c)) - n))\<rparr>)"
    if "scroll_in_range h c"
    using Scroll_in_range_step [OF that, of d] m by simp
  have third: "\<exists>p. run_all (Scroll h) ds c = Some (c\<lparr>consoleScrollPos := p\<rparr>)
                      \<and> scroll_in_range h (c\<lparr>consoleScrollPos := p\<rparr>)"
    if "scroll_in_range h c"
    using that by (rule Scroll_in_range_all)
  from first second third show ?thesis
    by blast
qed

lemma example_geometry:
  "GetNumVisibleLines (example_host maxLines historySize 10) (Update h' c) = Some 29"
  "GetNumVisibleLines h (example_console ls) = Some 0"
  "GetNumVisibleLines h (example_console ls\<lparr>consoleScrollPos := p\<rparr>) = Some 0"
  by (simp_all add: GetNumVisibleLines_eq consoleHeight_Update cpp_div_def example_host_def InGameConsoleGetLineHeight_def InGameConsoleGetFontStyle_def)
    (simp_all add: consoleHeight_def example_console_def)

lemma Update_fields:
  "consoleLines (Update h c) = consoleLines c"
  "consoleScrollPos (Update h c) = consoleScrollPos c"
  "consoleCurrentLine (Update h c) = consoleCurrentLine c"
  by (simp_all add: Update_def Let_def split: option.splits)

text \<open>
  Forty lines in a console of height 322 with a line height of 10: 29 lines are visible,
  the offset 0 is in range, a scroll by \<open>-20\<close> stops at the bound 11, and a scroll by 3
  after it gives 8.
\<close>

theorem Scroll_keeps_offset_in_range_witness:
  "GetNumVisibleLines (example_host 300 64 10)
     (Update (example_host 300 64 10) (example_console (replicate 40 ''x''))) = Some 29
   \<and> scroll_in_range (example_host 300 64 10)
       (Update (example_host 300 64 10) (example_console (replicate 40 ''x'')))
   \<and> Scroll (example_host 300 64 10) (- 20)
       (Update (example_host 300 64 10) (example_console (replicate 40 ''x''))) =
     Some ((Update (example_host 300 64 10) (example_console (replicate 40 ''x'')))
             \<lparr>consoleScrollPos := 11\<rparr>)
   \<and> run_all (Scroll (example_host 300 64 10)) [- 20, 3]
       (Update (example_host 300 64 10) (example_console (replicate 40 ''x''))) =
     Some ((Update (example_host 300 64 10) (example_console (replicate 40 ''x'')))
             \<lparr>consoleScrollPos := 8\<rparr>)
   \<and> scroll_in_range (example_host 300 64 10)
       ((Update (example_host 300 64 10) (example_console (replicate 40 ''x'')))
             \<lparr>consoleScrollPos := 8\<rparr>)"
proof -
  let ?h = "example_host 300 64 10"
  let ?c = "Update ?h (example_console (replicate 40 ''x''))"
  have n: "GetNumVisibleLines ?h ?c = Some 29"
    by (rule example_geometry)
  have p: "consoleScrollPos ?c = 0"
    by (simp add: Update_fields example_console_def)
  have len: "length (consoleLines ?c) = 40"
    by (simp add: Update_fields example_console_def)
  have r: "scroll_in_range ?h ?c"
    by (simp add: scroll_in_range_def max_scroll_def n p len)
  have r8: "scroll_in_range ?h (?c\<lparr>consoleScrollPos := 8\<rparr>)"
    by (simp add: scroll_in_range_def max_scroll_def n len)
  have s1: "Scroll ?h (- 20) ?c = Some (?c\<lparr>consoleScrollPos := 11\<rparr>)"
    using Scroll_keeps_offset_in_range [OF n, of "- 20" "[]"] r
    by (simp add: p len clamp_def)
  have s2: "Scroll ?h 3 (?c\<lparr>consoleScrollPos := 11\<rparr>) = Some (?c\<lparr>consoleScrollPos := 8\<rparr>)"
    using n by (simp add: Scroll_eq len clamp_def)
  have "run_all (Scroll ?h) [- 20, 3] ?c = Some (?c\<lparr>consoleScrollPos := 8\<rparr>)"
    by (simp add: s1 s2)
  with n r s1 r8 show ?thesis
    by blast
qed

text \<open>
  C5 as the specification states it fails. A console with four lines that has no
  region yet shows 0 lines, so four presses of \<^verbatim>\<open>ScrollPrevious\<close> move the offset to 4.
  Once \<^verbatim>\<open>Update\<close> has set the region, 29 lines are visible and the bound is 0; a call of
  \<^verbatim>\<open>Scroll\<close> finds no more lines than are visible and leaves the offset at 4.
\<close>

theorem Scroll_out_of_range_counterexample:
  "run_all (Input (example_host 300 64 10))
     [ScrollPrevious, ScrollPrevious, ScrollPrevious, ScrollPrevious]
     (example_console [''OpenRCT2'', ''Type help'', '''', ''> '']) =
     Some ((example_console [''OpenRCT2'', ''Type help'', '''', ''> ''])\<lparr>consoleScrollPos := 4\<rparr>)
   \<and> run_all (Scroll (example_host 300 64 10)) [1]
       (Update (example_host 300 64 10)
          ((example_console [''OpenRCT2'', ''Type help'', '''', ''> ''])\<lparr>consoleScrollPos := 4\<rparr>)) =
     Some (Update (example_host 300 64 10)
          ((example_console [''OpenRCT2'', ''Type help'', '''', ''> ''])\<lparr>consoleScrollPos := 4\<rparr>))
   \<and> consoleScrollPos (Update (example_host 300 64 10)
          ((example_console [''OpenRCT2'', ''Type help'', '''', ''> ''])\<lparr>consoleScrollPos := 4\<rparr>)) = 4
   \<and> max_scroll (example_host 300 64 10) (Update (example_host 300 64 10)
          ((example_console [''OpenRCT2'', ''Type help'', '''', ''> ''])\<lparr>consoleScrollPos := 4\<rparr>)) = Some 0
   \<and> \<not> scroll_in_range (example_host 300 64 10) (Update (example_host 300 64 10)
          ((example_console [''OpenRCT2'', ''Type help'', '''', ''> ''])\<lparr>consoleScrollPos := 4\<rparr>))"
proof -
  let ?h = "example_host 300 64 10"
  let ?c0 = "example_console [''OpenRCT2'', ''Type help'', '''', ''> '']"
  have up: "Input ?h ScrollPrevious (?c0\<lparr>consoleScrollPos := p\<rparr>) =
      Some (?c0\<lparr>consoleScrollPos := clamp (p + 1) 0 4\<rparr>)" for p
    by (simp add: example_geometry Scroll_eq) (simp add: example_console_def)
  have up0: "Input ?h ScrollPrevious ?c0 = Some (?c0\<lparr>consoleScrollPos := 1\<rparr>)"
    by (simp add: example_geometry Scroll_eq) (simp add: example_console_def clamp_def)
  have a: "run_all (Input ?h) [ScrollPrevious, ScrollPrevious, ScrollPrevious, ScrollPrevious] ?c0
      = Some (?c0\<lparr>consoleScrollPos := 4\<rparr>)"
    unfolding run_all.simps up0 up option.case by (simp add: clamp_def)
  let ?c = "Update ?h (?c0\<lparr>consoleScrollPos := 4\<rparr>)"
  have n: "GetNumVisibleLines ?h ?c = Some 29"
    by (rule example_geometry)
  have len: "length (consoleLines ?c) = 4"
    by (simp add: Update_fields example_console_def)
  have b: "run_all (Scroll ?h) [1] ?c = Some ?c"
    using n by (simp add: Scroll_eq len)
  have m: "max_scroll ?h ?c = Some 0"
    by (simp add: max_scroll_def n len)
  have p: "consoleScrollPos ?c = 4"
    by (simp add: Update_fields)
  have "\<not> scroll_in_range ?h ?c"
    by (simp add: scroll_in_range_def m p)
  with a b p m show ?thesis
    by blast
qed

section \<open>Writing and the scroll offset\<close>

lemma length_drop_oldest_append:
  "length xs \<le> n \<Longrightarrow> length xs \<le> length (drop_oldest n (xs @ ys))"
  by (simp add: drop_oldest_def)

text \<open>
  C6, as the code has it. A write has a result and leaves the scroll offset as it was:
  nothing clamps it again. A write on a scrollback within the cap never lowers the
  number of lines, so an offset that was in range before the write is in range after it.
\<close>

theorem WriteLine_leaves_scroll_offset:
  "\<exists>c'. WriteLine h input colourFormat c = Some c'
     \<and> consoleScrollPos c' = consoleScrollPos c
     \<and> (length (consoleLines c) \<le> CONSOLE_MAX_LINES h \<and> scroll_in_range h c
          \<longrightarrow> scroll_in_range h c')"
proof -
  let ?ls = "drop_oldest (CONSOLE_MAX_LINES h) (consoleLines c @ appended_lines input colourFormat)"
  let ?c' = "c\<lparr>consoleLines := ?ls\<rparr>"
  have run: "WriteLine h input colourFormat c = Some ?c'"
    by (rule WriteLine_eq)
  have pos: "consoleScrollPos ?c' = consoleScrollPos c"
    by simp
  have "scroll_in_range h ?c'"
    if le: "length (consoleLines c) \<le> CONSOLE_MAX_LINES h" and r: "scroll_in_range h c"
  proof -
    from r obtain n where n: "GetNumVisibleLines h c = Some n"
      by (auto simp: scroll_in_range_def max_scroll_def split: option.splits)
    from r n have range: "0 \<le> consoleScrollPos c"
      "consoleScrollPos c \<le> max 0 (int (length (consoleLines c)) - n)"
      by (simp_all add: scroll_in_range_def max_scroll_def)
    have "length (consoleLines c) \<le> length ?ls"
      using le by (rule length_drop_oldest_append)
    then have "max 0 (int (length (consoleLines c)) - n) \<le> max 0 (int (length ?ls) - n)"
      by linarith
    with range n show ?thesis
      by (simp add: scroll_in_range_def max_scroll_def)
  qed
  with run pos show ?thesis
    by blast
qed

text \<open>
  With a cap of three lines and no visible line, the offset 2 is in range for the lines
  \<open>a\<close>, \<open>b\<close>, \<open>c\<close>; writing \<open>d\<close> drops \<open>a\<close> and leaves the offset at 2, still in range.
\<close>

theorem WriteLine_leaves_scroll_offset_witness:
  "length (consoleLines ((example_console [''a'', ''b'', ''c''])\<lparr>consoleScrollPos := 2\<rparr>))
     \<le> CONSOLE_MAX_LINES (example_host 3 3 10)
   \<and> scroll_in_range (example_host 3 3 10)
        ((example_console [''a'', ''b'', ''c''])\<lparr>consoleScrollPos := 2\<rparr>)
   \<and> WriteLine (example_host 3 3 10) ''d'' ColourWindow2
        ((example_console [''a'', ''b'', ''c''])\<lparr>consoleScrollPos := 2\<rparr>) =
      Some ((example_console [''a'', ''b'', ''c''])
              \<lparr>consoleScrollPos := 2, consoleLines := [''b'', ''c'', ''d'']\<rparr>)
   \<and> scroll_in_range (example_host 3 3 10)
        ((example_console [''a'', ''b'', ''c''])
              \<lparr>consoleScrollPos := 2, consoleLines := [''b'', ''c'', ''d'']\<rparr>)"
proof -
  let ?h = "example_host 3 3 10"
  let ?c = "(example_console [''a'', ''b'', ''c''])\<lparr>consoleScrollPos := 2\<rparr>"
  have le: "length (consoleLines ?c) \<le> CONSOLE_MAX_LINES ?h"
    by (simp add: example_console_def example_host_def InGameConsoleGetLineHeight_def InGameConsoleGetFontStyle_def)
  have r: "scroll_in_range ?h ?c"
    by (simp add: scroll_in_range_def max_scroll_def example_geometry)
      (simp add: example_console_def)
  have run: "WriteLine ?h ''d'' ColourWindow2 ?c = Some (?c\<lparr>consoleLines := [''b'', ''c'', ''d'']\<rparr>)"
    by (simp add: WriteLine_eq appended_lines_def colourCodepoint_def drop_oldest_def)
      (simp add: example_console_def example_host_def InGameConsoleGetLineHeight_def InGameConsoleGetFontStyle_def)
  from WriteLine_leaves_scroll_offset [of ?h "''d''" ColourWindow2 ?c] le r run
  have "scroll_in_range ?h (?c\<lparr>consoleLines := [''b'', ''c'', ''d'']\<rparr>)"
    by auto
  with le r run show ?thesis
    by blast
qed

text \<open>
  C6 as the specification states it fails. With a cap of three lines, three presses of
  \<^verbatim>\<open>ScrollPrevious\<close> on a console without region move the offset to 3. After
  \<^verbatim>\<open>Update\<close> 29 lines are visible. Writing \<open>d\<close> makes four lines, the oldest is
  dropped, and the offset is still 3, above the bound 0.
\<close>

theorem WriteLine_no_reclamp_counterexample:
  "run_all (Input (example_host 3 3 10)) [ScrollPrevious, ScrollPrevious, ScrollPrevious]
     (example_console [''a'', ''b'', ''c'']) =
     Some ((example_console [''a'', ''b'', ''c''])\<lparr>consoleScrollPos := 3\<rparr>)
   \<and> CONSOLE_MAX_LINES (example_host 3 3 10)
       < length (consoleLines (Update (example_host 3 3 10)
            ((example_console [''a'', ''b'', ''c''])\<lparr>consoleScrollPos := 3\<rparr>))
          @ appended_lines ''d'' ColourWindow2)
   \<and> WriteLine (example_host 3 3 10) ''d'' ColourWindow2
       (Update (example_host 3 3 10)
          ((example_console [''a'', ''b'', ''c''])\<lparr>consoleScrollPos := 3\<rparr>)) =
     Some ((Update (example_host 3 3 10)
          ((example_console [''a'', ''b'', ''c''])\<lparr>consoleScrollPos := 3\<rparr>))
            \<lparr>consoleLines := [''b'', ''c'', ''d'']\<rparr>)
   \<and> consoleScrollPos ((Update (example_host 3 3 10)
          ((example_console [''a'', ''b'', ''c''])\<lparr>consoleScrollPos := 3\<rparr>))
            \<lparr>consoleLines := [''b'', ''c'', ''d'']\<rparr>) = 3
   \<and> max_scroll (example_host 3 3 10) ((Update (example_host 3 3 10)
          ((example_console [''a'', ''b'', ''c''])\<lparr>consoleScrollPos := 3\<rparr>))
            \<lparr>consoleLines := [''b'', ''c'', ''d'']\<rparr>) = Some 0
   \<and> \<not> scroll_in_range (example_host 3 3 10) ((Update (example_host 3 3 10)
          ((example_console [''a'', ''b'', ''c''])\<lparr>consoleScrollPos := 3\<rparr>))
            \<lparr>consoleLines := [''b'', ''c'', ''d'']\<rparr>)"
proof -
  let ?h = "example_host 3 3 10"
  let ?c0 = "example_console [''a'', ''b'', ''c'']"
  have up: "Input ?h ScrollPrevious (?c0\<lparr>consoleScrollPos := p\<rparr>) =
      Some (?c0\<lparr>consoleScrollPos := clamp (p + 1) 0 3\<rparr>)" for p
    by (simp add: example_geometry Scroll_eq) (simp add: example_console_def)
  have up0: "Input ?h ScrollPrevious ?c0 = Some (?c0\<lparr>consoleScrollPos := 1\<rparr>)"
    by (simp add: example_geometry Scroll_eq) (simp add: example_console_def clamp_def)
  have a: "run_all (Input ?h) [ScrollPrevious, ScrollPrevious, ScrollPrevious] ?c0
      = Some (?c0\<lparr>consoleScrollPos := 3\<rparr>)"
    unfolding run_all.simps up0 up option.case by (simp add: clamp_def)
  let ?c = "Update ?h (?c0\<lparr>consoleScrollPos := 3\<rparr>)"
  let ?c' = "?c\<lparr>consoleLines := [''b'', ''c'', ''d'']\<rparr>"
  have ls: "consoleLines ?c = [''a'', ''b'', ''c'']"
    by (simp add: Update_fields example_console_def)
  have over: "CONSOLE_MAX_LINES ?h < length (consoleLines ?c @ appended_lines ''d'' ColourWindow2)"
    by (simp add: ls appended_lines_def) (simp add: example_host_def InGameConsoleGetLineHeight_def InGameConsoleGetFontStyle_def)
  have run: "WriteLine ?h ''d'' ColourWindow2 ?c = Some ?c'"
    by (simp add: WriteLine_eq ls appended_lines_def colourCodepoint_def drop_oldest_def)
      (simp add: example_host_def InGameConsoleGetLineHeight_def InGameConsoleGetFontStyle_def)
  have n: "GetNumVisibleLines ?h ?c = Some 29"
    by (rule example_geometry)
  have p: "consoleScrollPos ?c' = 3"
    by (simp add: Update_fields)
  have m: "max_scroll ?h ?c' = Some 0"
    by (simp add: max_scroll_def n)
  have "\<not> scroll_in_range ?h ?c'"
    by (simp add: scroll_in_range_def m p)
  with a over run p m show ?thesis
    by blast
qed

section \<open>Executing the empty line\<close>

lemma Input_LineExecute_empty:
  "consoleCurrentLine c ! 0 = NUL \<Longrightarrow> Input h LineExecute c = ScrollToEnd h c"
  by simp

lemma ScrollToEnd_eq:
  "GetNumVisibleLines h c = Some n \<Longrightarrow>
   ScrollToEnd h c =
     Some (c\<lparr>consoleScrollPos :=
              (if n = 0 then 0 else max 0 (int (length (consoleLines c)) - n))\<rparr>)"
  by (simp add: ScrollToEnd_def)

lemma GetNumVisibleLines_host [simp]:
  "GetNumVisibleLines (h\<lparr>Execute := exec\<rparr>) c = GetNumVisibleLines h c"
  by (simp add: GetNumVisibleLines_def InGameConsoleGetLineHeight_def
      InGameConsoleGetFontStyle_def)

text \<open>
  C8, as the code has it. With an empty edit line (the first byte is the terminator)
  and a defined line count \<open>n\<close>, \<^verbatim>\<open>LineExecute\<close> changes the scroll offset and nothing
  else: the offset is set as \<^verbatim>\<open>ScrollToEnd\<close> sets it. The history, the scrollback and
  the edit line stay as they are, and the result does not depend on the command
  interpreter, which is not called.
\<close>

theorem Input_LineExecute_empty_line:
  assumes "consoleCurrentLine c ! 0 = NUL" and "GetNumVisibleLines h c = Some n"
  shows "Input h LineExecute c =
           Some (c\<lparr>consoleScrollPos :=
                    (if n = 0 then 0 else max 0 (int (length (consoleLines c)) - n))\<rparr>)
         \<and> Input (h\<lparr>Execute := exec\<rparr>) LineExecute c = Input h LineExecute c"
proof -
  have "Input h LineExecute c = ScrollToEnd h c"
    using assms(1) by (rule Input_LineExecute_empty)
  moreover have "Input (h\<lparr>Execute := exec\<rparr>) LineExecute c = ScrollToEnd (h\<lparr>Execute := exec\<rparr>) c"
    using assms(1) by (rule Input_LineExecute_empty)
  moreover have "ScrollToEnd (h\<lparr>Execute := exec\<rparr>) c = ScrollToEnd h c"
    by (simp add: ScrollToEnd_def)
  ultimately show ?thesis
    using ScrollToEnd_eq [OF assms(2)] by simp
qed

text \<open>With 35 lines of which 29 are visible, the offset becomes 6.\<close>

theorem Input_LineExecute_empty_line_witness:
  "consoleCurrentLine (Update (example_host 300 64 10) (example_console (replicate 35 ''x''))) ! 0
     = NUL
   \<and> GetNumVisibleLines (example_host 300 64 10)
       (Update (example_host 300 64 10) (example_console (replicate 35 ''x''))) = Some 29
   \<and> Input (example_host 300 64 10) LineExecute
       (Update (example_host 300 64 10) (example_console (replicate 35 ''x''))) =
     Some ((Update (example_host 300 64 10) (example_console (replicate 35 ''x'')))
            \<lparr>consoleScrollPos := 6\<rparr>)"
proof -
  let ?h = "example_host 300 64 10"
  let ?c = "Update ?h (example_console (replicate 35 ''x''))"
  have e: "consoleCurrentLine ?c ! 0 = NUL"
    by (simp add: Update_fields example_console_def)
  have n: "GetNumVisibleLines ?h ?c = Some 29"
    by (rule example_geometry)
  have len: "length (consoleLines ?c) = 35"
    by (simp add: Update_fields example_console_def)
  from Input_LineExecute_empty_line [OF e n, of "Execute ?h"] e n show ?thesis
    by (simp add: len)
qed

text \<open>
  C8 as the specification states it fails. A console with 40 lines, 29 of them visible,
  is scrolled to the top (offset 0). \<^verbatim>\<open>LineExecute\<close> with the empty edit line moves the
  offset to 11: the state is not left unchanged.
\<close>

theorem Input_LineExecute_empty_line_counterexample:
  "consoleCurrentLine (Update (example_host 300 64 10) (example_console (replicate 40 ''x''))) ! 0
     = NUL
   \<and> Input (example_host 300 64 10) LineExecute
       (Update (example_host 300 64 10) (example_console (replicate 40 ''x''))) =
     Some ((Update (example_host 300 64 10) (example_console (replicate 40 ''x'')))
            \<lparr>consoleScrollPos := 11\<rparr>)
   \<and> consoleScrollPos (Update (example_host 300 64 10) (example_console (replicate 40 ''x''))) = 0
   \<and> Input (example_host 300 64 10) LineExecute
       (Update (example_host 300 64 10) (example_console (replicate 40 ''x''))) \<noteq>
     Some (Update (example_host 300 64 10) (example_console (replicate 40 ''x'')))"
proof -
  let ?h = "example_host 300 64 10"
  let ?c = "Update ?h (example_console (replicate 40 ''x''))"
  have e: "consoleCurrentLine ?c ! 0 = NUL"
    by (simp add: Update_fields example_console_def)
  have n: "GetNumVisibleLines ?h ?c = Some 29"
    by (rule example_geometry)
  have len: "length (consoleLines ?c) = 40"
    by (simp add: Update_fields example_console_def)
  have p: "consoleScrollPos ?c = 0"
    by (simp add: Update_fields example_console_def)
  have run: "Input ?h LineExecute ?c = Some (?c\<lparr>consoleScrollPos := 11\<rparr>)"
    unfolding Input_LineExecute_empty [OF e] ScrollToEnd_eq [OF n] by (simp add: len)
  have "consoleScrollPos (?c\<lparr>consoleScrollPos := 11\<rparr>) \<noteq> consoleScrollPos ?c"
    unfolding p by simp
  then have "?c\<lparr>consoleScrollPos := 11\<rparr> \<noteq> ?c"
    by metis
  with e run p show ?thesis
    by simp
qed

section \<open>Recalling from the history\<close>

lemma run_all_append:
  "run_all f (xs @ ys) c = (case run_all f xs c of None \<Rightarrow> None | Some c' \<Rightarrow> run_all f ys c')"
  by (induction xs arbitrary: c) (auto split: option.splits)

lemma c_str_Some: "NUL \<in> set buf \<Longrightarrow> \<exists>str. c_str buf = Some str"
  by (simp add: c_str_def)

lemma recall_ok_row:
  assumes "recall_ok h c" and "0 \<le> i" and "i < consoleHistoryCount c"
  shows "i < int (length (consoleHistory c))"
    and "length (consoleHistory c ! nat i) = CONSOLE_INPUT_SIZE h"
    and "NUL \<in> set (consoleHistory c ! nat i)"
proof -
  from assms(1) have ok: "history_ok h c"
    and nul: "list_all (\<lambda>row. NUL \<in> set row) (history_entries c)"
    by (simp_all add: recall_ok_def)
  from ok have len: "int (length (consoleHistory c)) = CONSOLE_HISTORY_SIZE h"
    and rows: "list_all (\<lambda>row. length row = CONSOLE_INPUT_SIZE h) (consoleHistory c)"
    and cnt: "consoleHistoryCount c \<le> CONSOLE_HISTORY_SIZE h"
    by (simp_all add: history_ok_def)
  show lt: "i < int (length (consoleHistory c))"
    using assms(3) len cnt by linarith
  then have n: "nat i < length (consoleHistory c)"
    using assms(2) by linarith
  then show "length (consoleHistory c ! nat i) = CONSOLE_INPUT_SIZE h"
    using rows by (auto simp: list_all_iff)
  have "nat i < length (history_entries c)"
    using n assms(2,3) by (simp add: history_entries_def)
  moreover have "history_entries c ! nat i = consoleHistory c ! nat i"
    using assms(2,3) by (simp add: history_entries_def)
  ultimately show "NUL \<in> set (consoleHistory c ! nat i)"
    using nul by (auto simp: list_all_length)
qed

lemma recall_load:
  assumes ok: "recall_ok h c" and i: "0 \<le> i" "i < consoleHistoryCount c"
  shows "memcpy (consoleCurrentLine c) (consoleHistory c ! nat i) (CONSOLE_INPUT_SIZE h)
            = Some (consoleHistory c ! nat i)"
    and "recall_ok h (c\<lparr>consoleHistoryIndex := i, consoleCurrentLine := consoleHistory c ! nat i,
                             consoleTextInputSession := Some ses\<rparr>)"
proof -
  note row = recall_ok_row [OF ok i]
  from ok have line: "length (consoleCurrentLine c) = CONSOLE_INPUT_SIZE h"
    by (simp add: recall_ok_def)
  show "memcpy (consoleCurrentLine c) (consoleHistory c ! nat i) (CONSOLE_INPUT_SIZE h)
      = Some (consoleHistory c ! nat i)"
    using row(2) line by (simp add: memcpy_whole)
  show "recall_ok h (c\<lparr>consoleHistoryIndex := i, consoleCurrentLine := consoleHistory c ! nat i,
                             consoleTextInputSession := Some ses\<rparr>)"
    using ok i row(2) by (simp add: recall_ok_def history_ok_def history_entries_def)
qed

lemma HistoryPrevious_step:
  assumes ok: "recall_ok h c" and pos: "0 < consoleHistoryIndex c"
  shows "\<exists>c'. Input h HistoryPrevious c = Some c' \<and> recall_ok h c'
     \<and> consoleHistoryIndex c' = consoleHistoryIndex c - 1
     \<and> consoleHistory c' = consoleHistory c
     \<and> consoleHistoryCount c' = consoleHistoryCount c
     \<and> consoleLines c' = consoleLines c
     \<and> consoleScrollPos c' = consoleScrollPos c"
proof -
  let ?i = "consoleHistoryIndex c - 1"
  let ?row = "consoleHistory c ! nat ?i"
  from ok have le: "consoleHistoryIndex c \<le> consoleHistoryCount c"
    by (simp add: recall_ok_def)
  with pos have i: "0 \<le> ?i" "?i < consoleHistoryCount c"
    by simp_all
  from ok obtain ses where ses: "consoleTextInputSession c = Some ses"
    by (auto simp: recall_ok_def)
  note row = recall_ok_row [OF ok i]
  note load = recall_load [OF ok i]
  from row(3) obtain str where str: "c_str ?row = Some str"
    using c_str_Some by blast
  let ?ses' = "ses\<lparr>Size := length str, Length := UTF8Length h str, SelectionStart := length str\<rparr>"
  let ?c' = "c\<lparr>consoleHistoryIndex := ?i, consoleCurrentLine := ?row,
      consoleTextInputSession := Some ?ses'\<rparr>"
  have "Input h HistoryPrevious c = Some ?c'"
    using pos row(1) load(1) ses str by (simp add: strlen_def Let_def)
  moreover have "recall_ok h ?c'"
    by (rule load(2))
  ultimately show ?thesis
    by (intro exI [of _ ?c']) simp
qed

lemma HistoryNext_step:
  assumes ok: "recall_ok h c" and lt: "consoleHistoryIndex c < consoleHistoryCount c - 1"
  shows "\<exists>c'. Input h HistoryNext c = Some c' \<and> recall_ok h c'
     \<and> consoleHistoryIndex c' = consoleHistoryIndex c + 1
     \<and> consoleHistory c' = consoleHistory c
     \<and> consoleHistoryCount c' = consoleHistoryCount c
     \<and> consoleLines c' = consoleLines c
     \<and> consoleScrollPos c' = consoleScrollPos c"
proof -
  let ?i = "consoleHistoryIndex c + 1"
  let ?row = "consoleHistory c ! nat ?i"
  from ok have ge: "0 \<le> consoleHistoryIndex c"
    by (simp add: recall_ok_def)
  with lt have i: "0 \<le> ?i" "?i < consoleHistoryCount c"
    by simp_all
  from ok obtain ses where ses: "consoleTextInputSession c = Some ses"
    by (auto simp: recall_ok_def)
  note row = recall_ok_row [OF ok i]
  note load = recall_load [OF ok i]
  from row(3) obtain str where str: "c_str ?row = Some str"
    using c_str_Some by blast
  let ?ses' = "ses\<lparr>Size := length str, Length := UTF8Length h str, SelectionStart := length str\<rparr>"
  let ?c' = "c\<lparr>consoleHistoryIndex := ?i, consoleCurrentLine := ?row,
      consoleTextInputSession := Some ?ses'\<rparr>"
  have "Input h HistoryNext c = Some ?c'"
    using lt i(1) row(1) load(1) ses str by (simp add: strlen_def Let_def)
  moreover have "recall_ok h ?c'"
    by (rule load(2))
  ultimately show ?thesis
    by (intro exI [of _ ?c']) simp
qed

lemma HistoryNext_last:
  assumes ok: "recall_ok h c" and ge: "\<not> consoleHistoryIndex c < consoleHistoryCount c - 1"
  shows "\<exists>c'. Input h HistoryNext c = Some c' \<and> recall_ok h c'
     \<and> consoleHistoryIndex c' = consoleHistoryCount c
     \<and> consoleCurrentLine c' ! 0 = NUL
     \<and> c_str (consoleCurrentLine c') = Some []
     \<and> consoleHistory c' = consoleHistory c
     \<and> consoleHistoryCount c' = consoleHistoryCount c
     \<and> consoleLines c' = consoleLines c
     \<and> consoleScrollPos c' = consoleScrollPos c"
proof -
  let ?c' = "ClearInput (c\<lparr>consoleHistoryIndex := consoleHistoryCount c\<rparr>)"
  from ok have line: "length (consoleCurrentLine c) = CONSOLE_INPUT_SIZE h"
    "0 < CONSOLE_INPUT_SIZE h" "0 \<le> consoleHistoryCount c"
    by (simp_all add: recall_ok_def history_ok_def)
  then obtain b bs where buf: "consoleCurrentLine c = b # bs"
    by (cases "consoleCurrentLine c") auto
  have run: "Input h HistoryNext c = Some ?c'"
    using ge by simp
  have cur: "consoleCurrentLine ?c' = NUL # bs"
    by (simp add: ClearInput_def buf)
  have "recall_ok h ?c'"
    using ok line buf
    by (simp add: recall_ok_def history_ok_def history_entries_def ClearInput_def)
  with run cur show ?thesis
    by (intro exI [of _ ?c']) (simp add: c_str_def, simp add: ClearInput_def)
qed

lemma HistoryPrevious_iter:
  "recall_ok h c \<Longrightarrow> int k \<le> consoleHistoryIndex c \<Longrightarrow>
   \<exists>c'. run_all (Input h) (replicate k HistoryPrevious) c = Some c' \<and> recall_ok h c'
     \<and> consoleHistoryIndex c' = consoleHistoryIndex c - int k
     \<and> consoleHistory c' = consoleHistory c
     \<and> consoleHistoryCount c' = consoleHistoryCount c
     \<and> consoleLines c' = consoleLines c
     \<and> consoleScrollPos c' = consoleScrollPos c"
proof (induction k arbitrary: c)
  case 0
  then show ?case by simp
next
  case (Suc k)
  then have "0 < consoleHistoryIndex c"
    by simp
  from HistoryPrevious_step [OF Suc.prems(1) this] obtain c1
    where c1: "Input h HistoryPrevious c = Some c1" "recall_ok h c1"
      "consoleHistoryIndex c1 = consoleHistoryIndex c - 1"
      "consoleHistory c1 = consoleHistory c" "consoleHistoryCount c1 = consoleHistoryCount c"
      "consoleLines c1 = consoleLines c" "consoleScrollPos c1 = consoleScrollPos c"
    by blast
  have "int k \<le> consoleHistoryIndex c1"
    using Suc.prems(2) c1(3) by simp
  from Suc.IH [OF c1(2) this] obtain c'
    where c': "run_all (Input h) (replicate k HistoryPrevious) c1 = Some c'" "recall_ok h c'"
      "consoleHistoryIndex c' = consoleHistoryIndex c1 - int k"
      "consoleHistory c' = consoleHistory c1" "consoleHistoryCount c' = consoleHistoryCount c1"
      "consoleLines c' = consoleLines c1" "consoleScrollPos c' = consoleScrollPos c1"
    by blast
  have "run_all (Input h) (replicate (Suc k) HistoryPrevious) c = Some c'"
    using c1(1) c'(1) by simp
  with c1 c' show ?case
    by (intro exI [of _ c']) simp
qed

lemma HistoryNext_iter:
  "recall_ok h c \<Longrightarrow> consoleHistoryIndex c + int (Suc k) = consoleHistoryCount c \<Longrightarrow>
   \<exists>c'. run_all (Input h) (replicate (Suc k) HistoryNext) c = Some c' \<and> recall_ok h c'
     \<and> consoleHistoryIndex c' = consoleHistoryCount c
     \<and> consoleCurrentLine c' ! 0 = NUL
     \<and> c_str (consoleCurrentLine c') = Some []
     \<and> consoleHistory c' = consoleHistory c
     \<and> consoleHistoryCount c' = consoleHistoryCount c
     \<and> consoleLines c' = consoleLines c
     \<and> consoleScrollPos c' = consoleScrollPos c"
proof (induction k arbitrary: c)
  case 0
  then have "\<not> consoleHistoryIndex c < consoleHistoryCount c - 1"
    by simp
  from HistoryNext_last [OF "0.prems"(1) this] show ?case
    by (auto split: option.splits)
next
  case (Suc k)
  then have "consoleHistoryIndex c < consoleHistoryCount c - 1"
    by simp
  from HistoryNext_step [OF Suc.prems(1) this] obtain c1
    where c1: "Input h HistoryNext c = Some c1" "recall_ok h c1"
      "consoleHistoryIndex c1 = consoleHistoryIndex c + 1"
      "consoleHistory c1 = consoleHistory c" "consoleHistoryCount c1 = consoleHistoryCount c"
      "consoleLines c1 = consoleLines c" "consoleScrollPos c1 = consoleScrollPos c"
    by blast
  have "consoleHistoryIndex c1 + int (Suc k) = consoleHistoryCount c1"
    using Suc.prems(2) c1(3,5) by simp
  from Suc.IH [OF c1(2) this] obtain c'
    where c': "run_all (Input h) (replicate (Suc k) HistoryNext) c1 = Some c'" "recall_ok h c'"
      "consoleHistoryIndex c' = consoleHistoryCount c1"
      "consoleCurrentLine c' ! 0 = NUL" "c_str (consoleCurrentLine c') = Some []"
      "consoleHistory c' = consoleHistory c1" "consoleHistoryCount c' = consoleHistoryCount c1"
      "consoleLines c' = consoleLines c1" "consoleScrollPos c' = consoleScrollPos c1"
    by blast
  have "run_all (Input h) (replicate (Suc (Suc k)) HistoryNext) c = Some c'"
    using c1(1) c'(1) by simp
  with c1 c' show ?case
    by (intro exI [of _ c']) simp
qed

text \<open>
  C7. On an open console with a well-formed history whose recall cursor is at the count
  (the fresh line), \<open>k\<close> presses of \<^verbatim>\<open>HistoryPrevious\<close> followed by \<open>k\<close> presses of
  \<^verbatim>\<open>HistoryNext\<close>, for \<open>k\<close> up to the count, have a result: the cursor is at the count
  again and the edit line is empty, its first byte the terminator. The history, the
  scrollback and the scroll offset are as before. For \<open>k = 0\<close> nothing runs, and the edit
  line is empty after if it was before.
\<close>

theorem history_recall_round_trip:
  assumes "recall_ok h c"
    and "consoleHistoryIndex c = consoleHistoryCount c"
    and "int k \<le> consoleHistoryCount c"
    and "k = 0 \<longrightarrow> consoleCurrentLine c ! 0 = NUL"
  shows "\<exists>c'. run_all (Input h) (replicate k HistoryPrevious @ replicate k HistoryNext) c = Some c'
     \<and> consoleHistoryIndex c' = consoleHistoryCount c'
     \<and> consoleCurrentLine c' ! 0 = NUL
     \<and> c_str (consoleCurrentLine c') = Some []
     \<and> consoleHistory c' = consoleHistory c
     \<and> consoleHistoryCount c' = consoleHistoryCount c
     \<and> consoleLines c' = consoleLines c
     \<and> consoleScrollPos c' = consoleScrollPos c"
proof (cases k)
  case 0
  from assms(1) have "length (consoleCurrentLine c) = CONSOLE_INPUT_SIZE h"
    "0 < CONSOLE_INPUT_SIZE h"
    by (simp_all add: recall_ok_def history_ok_def)
  then obtain b bs where buf: "consoleCurrentLine c = b # bs"
    by (cases "consoleCurrentLine c") auto
  with assms(4) 0 have "c_str (consoleCurrentLine c) = Some []"
    by (simp add: c_str_def)
  with 0 assms(2,4) show ?thesis
    by simp
next
  case (Suc j)
  have "int k \<le> consoleHistoryIndex c"
    using assms(2,3) by simp
  from HistoryPrevious_iter [OF assms(1) this] obtain c1
    where c1: "run_all (Input h) (replicate k HistoryPrevious) c = Some c1" "recall_ok h c1"
      "consoleHistoryIndex c1 = consoleHistoryIndex c - int k"
      "consoleHistory c1 = consoleHistory c" "consoleHistoryCount c1 = consoleHistoryCount c"
      "consoleLines c1 = consoleLines c" "consoleScrollPos c1 = consoleScrollPos c"
    by blast
  have "consoleHistoryIndex c1 + int (Suc j) = consoleHistoryCount c1"
    using c1(3,5) assms(2) Suc by simp
  from HistoryNext_iter [OF c1(2) this] obtain c'
    where c': "run_all (Input h) (replicate (Suc j) HistoryNext) c1 = Some c'"
      "consoleHistoryIndex c' = consoleHistoryCount c1"
      "consoleCurrentLine c' ! 0 = NUL" "c_str (consoleCurrentLine c') = Some []"
      "consoleHistory c' = consoleHistory c1" "consoleHistoryCount c' = consoleHistoryCount c1"
      "consoleLines c' = consoleLines c1" "consoleScrollPos c' = consoleScrollPos c1"
    by blast
  have n: "run_all (Input h) (replicate k HistoryNext) c1 = Some c'"
    unfolding Suc by (rule c'(1))
  have "run_all (Input h) (replicate k HistoryPrevious @ replicate k HistoryNext) c = Some c'"
    by (simp only: run_all_append c1(1) n option.case)
  with c1(4-7) c'(2-8) show ?thesis
    by (intro exI [of _ c']) simp
qed

lemma example_open_console_recall_ok:
  "length buf = 4 \<Longrightarrow> recall_ok (example_host 300 3 10) (example_open_console buf)"
  by (simp add: recall_ok_def history_ok_def history_entries_def example_host_def InGameConsoleGetLineHeight_def InGameConsoleGetFontStyle_def
      example_open_console_def example_console_def)

text \<open>
  With the commands \<open>ab\<close> and \<open>cd\<close> in the history and \<open>x\<close> typed, two presses back and
  two forth end on the fresh line with an empty edit line.
\<close>

theorem history_recall_round_trip_witness:
  "recall_ok (example_host 300 3 10) (example_open_console (''x'' @ [NUL, NUL, NUL]))
   \<and> consoleHistoryIndex (example_open_console (''x'' @ [NUL, NUL, NUL]))
       = consoleHistoryCount (example_open_console (''x'' @ [NUL, NUL, NUL]))
   \<and> int 2 \<le> consoleHistoryCount (example_open_console (''x'' @ [NUL, NUL, NUL]))
   \<and> run_all (Input (example_host 300 3 10))
        (replicate 2 HistoryPrevious @ replicate 2 HistoryNext)
        (example_open_console (''x'' @ [NUL, NUL, NUL])) =
      Some ((example_open_console (''x'' @ [NUL, NUL, NUL]))
             \<lparr>consoleCurrentLine := [NUL, CHR ''d'', NUL, NUL],
              consoleTextInputSession := Some \<lparr>Size = 2, Length = 2, SelectionStart = 2\<rparr>\<rparr>)
   \<and> map_option (\<lambda>c'. c_str (consoleCurrentLine c'))
        (run_all (Input (example_host 300 3 10))
          (replicate 2 HistoryPrevious @ replicate 2 HistoryNext)
          (example_open_console (''x'' @ [NUL, NUL, NUL]))) = Some (Some [])
   \<and> map_option consoleHistoryIndex
        (run_all (Input (example_host 300 3 10))
          (replicate 2 HistoryPrevious @ replicate 2 HistoryNext)
          (example_open_console (''x'' @ [NUL, NUL, NUL]))) = Some 2"
proof -
  let ?h = "example_host 300 3 10"
  let ?c = "example_open_console (''x'' @ [NUL, NUL, NUL])"
  have ok: "recall_ok ?h ?c"
    by (rule example_open_console_recall_ok) simp
  have cur: "consoleHistoryIndex ?c = consoleHistoryCount ?c"
    by (simp add: example_open_console_def)
  have k: "int 2 \<le> consoleHistoryCount ?c"
    by (simp add: example_open_console_def)
  from history_recall_round_trip [OF ok cur k] obtain c'
    where c': "run_all (Input ?h) (replicate 2 HistoryPrevious @ replicate 2 HistoryNext) ?c
        = Some c'"
      "consoleHistoryIndex c' = consoleHistoryCount c'" "c_str (consoleCurrentLine c') = Some []"
      "consoleHistoryCount c' = consoleHistoryCount ?c"
    by auto
  have run: "run_all (Input ?h) (replicate 2 HistoryPrevious @ replicate 2 HistoryNext) ?c =
      Some (?c\<lparr>consoleCurrentLine := [NUL, CHR ''d'', NUL, NUL],
              consoleTextInputSession := Some \<lparr>Size = 2, Length = 2, SelectionStart = 2\<rparr>\<rparr>)"
    by (simp add: numeral_2_eq_2 example_open_console_def example_console_def example_host_def InGameConsoleGetLineHeight_def InGameConsoleGetFontStyle_def
        memcpy_def strlen_def c_str_def ClearInput_def Let_def)
  have "consoleHistoryCount ?c = 2"
    by (simp add: example_open_console_def)
  with c' have "map_option (\<lambda>c'. c_str (consoleCurrentLine c'))
        (run_all (Input ?h) (replicate 2 HistoryPrevious @ replicate 2 HistoryNext) ?c)
        = Some (Some [])"
    "map_option consoleHistoryIndex
        (run_all (Input ?h) (replicate 2 HistoryPrevious @ replicate 2 HistoryNext) ?c) = Some 2"
    by simp_all
  with ok cur k run show ?thesis
    by blast
qed

section \<open>Executing a line\<close>

lemma HistoryAdd_fields:
  "HistoryAdd h src c = Some c' \<Longrightarrow>
   consoleLines c' = consoleLines c \<and> consoleCurrentLine c' = consoleCurrentLine c"
  by (auto simp: HistoryAdd_def Let_def split: if_splits bind_splits)

lemma WritePrompt_eq:
  "WritePrompt h c =
     Some (c\<lparr>consoleLines := drop_oldest (CONSOLE_MAX_LINES h) (consoleLines c @ [''> ''])\<rparr>)"
  by (simp add: WritePrompt_def InteractiveConsole_WriteLine_def WriteLine_eq appended_lines_def
      colourCodepoint_def)

lemma RefreshCaret_0:
  "0 < TEXT_INPUT_SIZE h \<Longrightarrow>
   RefreshCaret h 0 c =
     Some (c\<lparr>consoleCaretTicks := 0, selectionStart := 0,
              caretScreenPosX := GfxGetStringWidthNoFormatting h [] (InGameConsoleGetFontStyle h)\<rparr>)"
  by (simp add: RefreshCaret_def memcpy_def c_str_def)

text \<open>
  C1. On a console with a well-formed history and a scrollback that is not empty, let
  the edit line hold the terminated, non-empty string \<open>line\<close>. \<^verbatim>\<open>LineExecute\<close> first adds
  the edit buffer to the history, giving \<open>c1\<close>, then appends \<open>line\<close> to the last line of
  the scrollback, and calls the command interpreter with \<open>line\<close> on that console. From
  what the interpreter returns, \<open>c3\<close>, it writes the prompt as a new line, sets the first
  byte of the edit line to the terminator, resets the caret and only then scrolls to the
  end: the offset is computed from the scrollback that holds the prompt.
\<close>

theorem Input_LineExecute_order:
  assumes "history_ok h c"
    and "length (consoleCurrentLine c) = CONSOLE_INPUT_SIZE h"
    and "consoleCurrentLine c ! 0 \<noteq> NUL"
    and "c_str (consoleCurrentLine c) = Some line"
    and "consoleLines c \<noteq> []"
    and "0 < TEXT_INPUT_SIZE h"
  shows "\<exists>c1. HistoryAdd h (consoleCurrentLine c) c = Some c1
     \<and> history_entries c1 =
         drop (length (history_entries c @ [consoleCurrentLine c]) - nat (CONSOLE_HISTORY_SIZE h))
           (history_entries c @ [consoleCurrentLine c])
     \<and> (\<forall>c3 n.
           Execute h line
             (c1\<lparr>consoleLines := butlast (consoleLines c) @ [last (consoleLines c) @ line]\<rparr>)
             = Some c3
           \<and> GetNumVisibleLines h c3 = Some n
           \<longrightarrow> Input h LineExecute c =
                 Some (c3\<lparr>consoleLines :=
                          drop (length (consoleLines c3 @ [''> '']) - CONSOLE_MAX_LINES h)
                            (consoleLines c3 @ [''> '']),
                        consoleCurrentLine := (consoleCurrentLine c3)[0 := NUL],
                        consoleCaretTicks := 0,
                        selectionStart := 0,
                        caretScreenPosX := GfxGetStringWidthNoFormatting h [] (InGameConsoleGetFontStyle h),
                        consoleScrollPos :=
                          (if n = 0 then 0
                           else max 0 (int (length
                             (drop (length (consoleLines c3 @ [''> '']) - CONSOLE_MAX_LINES h)
                                (consoleLines c3 @ [''> '']))) - n))\<rparr>))"
proof -
  from HistoryAdd_step [OF assms(1,2)] obtain c1
    where c1: "HistoryAdd h (consoleCurrentLine c) c = Some c1"
      "history_entries c1 =
         drop_oldest (nat (CONSOLE_HISTORY_SIZE h)) (history_entries c @ [consoleCurrentLine c])"
    by blast
  note f = HistoryAdd_fields [OF c1(1)]
  let ?c2 = "c1\<lparr>consoleLines := butlast (consoleLines c) @ [last (consoleLines c) @ line]\<rparr>"
  have "Input h LineExecute c =
                 Some (c3\<lparr>consoleLines :=
                          drop (length (consoleLines c3 @ [''> '']) - CONSOLE_MAX_LINES h)
                            (consoleLines c3 @ [''> '']),
                        consoleCurrentLine := (consoleCurrentLine c3)[0 := NUL],
                        consoleCaretTicks := 0,
                        selectionStart := 0,
                        caretScreenPosX := GfxGetStringWidthNoFormatting h [] (InGameConsoleGetFontStyle h),
                        consoleScrollPos :=
                          (if n = 0 then 0
                           else max 0 (int (length
                             (drop (length (consoleLines c3 @ [''> '']) - CONSOLE_MAX_LINES h)
                                (consoleLines c3 @ [''> '']))) - n))\<rparr>)"
    if exec: "Execute h line ?c2 = Some c3" and n: "GetNumVisibleLines h c3 = Some n" for c3 n
  proof -
    let ?c4 = "c3\<lparr>consoleLines := drop_oldest (CONSOLE_MAX_LINES h) (consoleLines c3 @ [''> ''])\<rparr>"
    let ?c5 = "(ClearInput ?c4)\<lparr>consoleCaretTicks := 0, selectionStart := 0,
              caretScreenPosX := GfxGetStringWidthNoFormatting h [] (InGameConsoleGetFontStyle h)\<rparr>"
    have body: "(do {
                 c1 \<leftarrow> HistoryAdd h (consoleCurrentLine c) c;
                 line \<leftarrow> c_str (consoleCurrentLine c1);
                 c2 \<leftarrow> (if consoleLines c1 = [] then None
                        else Some (c1\<lparr>consoleLines :=
                               butlast (consoleLines c1) @ [last (consoleLines c1) @ line]\<rparr>));
                 line' \<leftarrow> c_str (consoleCurrentLine c2);
                 c3 \<leftarrow> Execute h line' c2;
                 c4 \<leftarrow> WritePrompt h c3;
                 RefreshCaret h 0 (ClearInput c4)
               }) = Some ?c5"
      using assms(4,5) exec by (simp add: c1(1) f WritePrompt_eq RefreshCaret_0 [OF assms(6)])
    have "GetNumVisibleLines h ?c5 = Some n"
      using n by (simp add: ClearInput_def)
    then have "ScrollToEnd h ?c5 =
        Some (?c5\<lparr>consoleScrollPos :=
              (if n = 0 then 0 else max 0 (int (length (consoleLines ?c5)) - n))\<rparr>)"
      by (rule ScrollToEnd_eq)
    with body assms(3) show ?thesis
      by (simp add: ClearInput_def drop_oldest_def)
  qed
  with c1 show ?thesis
    unfolding drop_oldest_def by blast
qed

text \<open>
  With one line visible, executing \<open>hi\<close> on a console that shows the prompt, with an
  interpreter that answers \<open>ok\<close>: the history gains \<open>hi\<close>, the scrollback is the echoed
  prompt, the answer and the new prompt, and the offset 2 shows the new prompt.
\<close>

theorem Input_LineExecute_order_witness:
  "history_ok (example_host 300 3 100) (example_open_console (''hi'' @ [NUL, NUL]))
   \<and> length (consoleCurrentLine (example_open_console (''hi'' @ [NUL, NUL])))
       = CONSOLE_INPUT_SIZE (example_host 300 3 100)
   \<and> consoleCurrentLine (example_open_console (''hi'' @ [NUL, NUL])) ! 0 \<noteq> NUL
   \<and> c_str (consoleCurrentLine (example_open_console (''hi'' @ [NUL, NUL]))) = Some ''hi''
   \<and> consoleLines (example_open_console (''hi'' @ [NUL, NUL])) \<noteq> []
   \<and> 0 < TEXT_INPUT_SIZE (example_host 300 3 100)
   \<and> Input (example_host 300 3 100) LineExecute (example_open_console (''hi'' @ [NUL, NUL])) =
       Some ((example_open_console (''hi'' @ [NUL, NUL]))
         \<lparr>consoleHistory := [''ab'' @ [NUL, NUL], ''cd'' @ [NUL, NUL], ''hi'' @ [NUL, NUL]],
          consoleHistoryCount := 3,
          consoleHistoryIndex := 3,
          consoleLines := [''> hi'', ''ok'', ''> ''],
          consoleCurrentLine := [NUL, CHR ''i'', NUL, NUL],
          consoleScrollPos := 2\<rparr>)"
proof -
  let ?h = "example_host 300 3 100"
  let ?c = "example_open_console (''hi'' @ [NUL, NUL])"
  let ?c1 = "?c\<lparr>consoleHistory := [''ab'' @ [NUL, NUL], ''cd'' @ [NUL, NUL], ''hi'' @ [NUL, NUL]],
          consoleHistoryCount := 3, consoleHistoryIndex := 3\<rparr>"
  let ?c3 = "?c1\<lparr>consoleLines := [''> hi'', ''ok'']\<rparr>"
  have ok: "history_ok ?h ?c"
    by (simp add: history_ok_def example_host_def InGameConsoleGetLineHeight_def InGameConsoleGetFontStyle_def example_open_console_def example_console_def)
  have len: "length (consoleCurrentLine ?c) = CONSOLE_INPUT_SIZE ?h"
    by (simp add: example_host_def InGameConsoleGetLineHeight_def InGameConsoleGetFontStyle_def example_open_console_def)
  have ne: "consoleCurrentLine ?c ! 0 \<noteq> NUL"
    by (simp add: example_open_console_def)
  have str: "c_str (consoleCurrentLine ?c) = Some ''hi''"
    by (simp add: example_open_console_def c_str_def)
  have ls: "consoleLines ?c \<noteq> []"
    by (simp add: example_open_console_def example_console_def)
  have t: "0 < TEXT_INPUT_SIZE ?h"
    by (simp add: example_host_def InGameConsoleGetLineHeight_def InGameConsoleGetFontStyle_def)
  have add: "HistoryAdd ?h (consoleCurrentLine ?c) ?c = Some ?c1"
    by (simp add: HistoryAdd_def memcpy_def Let_def example_host_def InGameConsoleGetLineHeight_def InGameConsoleGetFontStyle_def example_open_console_def
        example_console_def)
  have exec: "Execute ?h ''hi''
      (?c1\<lparr>consoleLines := butlast (consoleLines ?c) @ [last (consoleLines ?c) @ ''hi'']\<rparr>)
      = Some ?c3"
    by (simp add: example_host_def InGameConsoleGetLineHeight_def InGameConsoleGetFontStyle_def example_open_console_def example_console_def)
  have n: "GetNumVisibleLines ?h ?c3 = Some 1"
    by (simp add: GetNumVisibleLines_eq consoleHeight_def cpp_div_def example_host_def InGameConsoleGetLineHeight_def InGameConsoleGetFontStyle_def
        example_open_console_def example_console_def)
  from Input_LineExecute_order [OF ok len ne str ls t] obtain c1
    where c1: "HistoryAdd ?h (consoleCurrentLine ?c) ?c = Some c1"
      and rest: "\<forall>c3 n.
           Execute ?h ''hi''
             (c1\<lparr>consoleLines := butlast (consoleLines ?c) @ [last (consoleLines ?c) @ ''hi'']\<rparr>)
             = Some c3
           \<and> GetNumVisibleLines ?h c3 = Some n
           \<longrightarrow> Input ?h LineExecute ?c =
                 Some (c3\<lparr>consoleLines :=
                          drop (length (consoleLines c3 @ [''> '']) - CONSOLE_MAX_LINES ?h)
                            (consoleLines c3 @ [''> '']),
                        consoleCurrentLine := (consoleCurrentLine c3)[0 := NUL],
                        consoleCaretTicks := 0,
                        selectionStart := 0,
                        caretScreenPosX := GfxGetStringWidthNoFormatting ?h [] (InGameConsoleGetFontStyle ?h),
                        consoleScrollPos :=
                          (if n = 0 then 0
                           else max 0 (int (length
                             (drop (length (consoleLines c3 @ [''> '']) - CONSOLE_MAX_LINES ?h)
                                (consoleLines c3 @ [''> '']))) - n))\<rparr>)"
    by blast
  from c1 add have c1_eq: "c1 = ?c1"
    by simp
  have "Input ?h LineExecute ?c =
      Some (?c3\<lparr>consoleLines :=
                          drop (length (consoleLines ?c3 @ [''> '']) - CONSOLE_MAX_LINES ?h)
                            (consoleLines ?c3 @ [''> '']),
                        consoleCurrentLine := (consoleCurrentLine ?c3)[0 := NUL],
                        consoleCaretTicks := 0,
                        selectionStart := 0,
                        caretScreenPosX := GfxGetStringWidthNoFormatting ?h [] (InGameConsoleGetFontStyle ?h),
                        consoleScrollPos :=
                          (if (1::int) = 0 then 0
                           else max 0 (int (length
                             (drop (length (consoleLines ?c3 @ [''> '']) - CONSOLE_MAX_LINES ?h)
                                (consoleLines ?c3 @ [''> '']))) - 1))\<rparr>)"
  proof (rule rest [THEN spec, THEN spec, THEN mp])
    show "Execute ?h ''hi''
             (c1\<lparr>consoleLines := butlast (consoleLines ?c) @ [last (consoleLines ?c) @ ''hi'']\<rparr>)
             = Some ?c3
           \<and> GetNumVisibleLines ?h ?c3 = Some 1"
      unfolding c1_eq using exec n by (rule conjI)
  qed
  also have "\<dots> = Some (?c
         \<lparr>consoleHistory := [''ab'' @ [NUL, NUL], ''cd'' @ [NUL, NUL], ''hi'' @ [NUL, NUL]],
          consoleHistoryCount := 3,
          consoleHistoryIndex := 3,
          consoleLines := [''> hi'', ''ok'', ''> ''],
          consoleCurrentLine := [NUL, CHR ''i'', NUL, NUL],
          consoleScrollPos := 2\<rparr>)"
    by (simp add: example_host_def InGameConsoleGetLineHeight_def InGameConsoleGetFontStyle_def example_open_console_def example_console_def)
  finally show ?thesis
    using ok len ne str ls t by blast
qed

end
